theory Spec2Isabelle
  imports Complex_Main "HOL-Library.Word"
begin

section \<open>JavaScript strings, bytes and errors\<close>

text \<open>
  A JavaScript string is modelled by the list of its UTF-8 bytes, so \<open>TextEncoder.encode\<close>
  (and the default \<open>utf8\<close> encoding of Node's \<open>crypto\<close>) only changes the element type.
  A \<open>Uint8Array\<close> is a list of 8-bit words.
\<close>

type_synonym uint8 = "8 word"

definition TextEncoder_encode :: "string \<Rightarrow> uint8 list" where
  "TextEncoder_encode s = map (\<lambda>c. of_nat (of_char c)) s"

text \<open>\<open>s.includes(sub)\<close>: some suffix of \<open>s\<close> starts with \<open>sub\<close>.\<close>

fun starts_with :: "string \<Rightarrow> string \<Rightarrow> bool" where
  "starts_with s [] = True"
| "starts_with [] (c # cs) = False"
| "starts_with (d # ds) (c # cs) = (d = c \<and> starts_with ds cs)"

fun str_includes :: "string \<Rightarrow> string \<Rightarrow> bool" where
  "str_includes [] sub = starts_with [] sub"
| "str_includes (d # ds) sub = (starts_with (d # ds) sub \<or> str_includes ds sub)"

text \<open>\<open>n.toString()\<close> and \<open>n.toString(16)\<close> of a non-negative integer: the digits, most
  significant first, no leading zero; lower-case letters in base 16.\<close>

definition digit_char :: "nat \<Rightarrow> char" where
  "digit_char d = ''0123456789abcdef'' ! d"

fun toString10 :: "nat \<Rightarrow> string" where
  "toString10 n = (if n < 10 then [digit_char n] else toString10 (n div 10) @ [digit_char (n mod 10)])"

fun toString16 :: "nat \<Rightarrow> string" where
  "toString16 n = (if n < 16 then [digit_char n] else toString16 (n div 16) @ [digit_char (n mod 16)])"

declare toString10.simps [simp del] toString16.simps [simp del]

text \<open>\<open>s.padStart(len, c)\<close> with a one-character filler.\<close>

definition padStart :: "nat \<Rightarrow> char \<Rightarrow> string \<Rightarrow> string" where
  "padStart len c s = replicate (len - length s) c @ s"

text \<open>
  A thrown value. Everything thrown on the paths modelled here is an \<open>Error\<close> object (built
  by \<open>new Error\<close> or raised by the platform), so \<open>error instanceof Error\<close> is true
  throughout; \<open>err_name\<close> tells \<open>TypeError\<close>, \<open>AbortError\<close> and the like apart.
  \<open>err_code\<close> and \<open>err_msg\<close> are the optional \<open>code\<close> and \<open>msg\<close> of the source's
  \<open>BinanceError\<close> interface.
\<close>

record js_error =
  err_name :: string
  err_message :: string
  err_code :: "nat option"
  err_msg :: "string option"

definition new_Error :: "string \<Rightarrow> js_error" where
  "new_Error m = \<lparr>err_name = ''Error'', err_message = m, err_code = None, err_msg = None\<rparr>"

definition TypeError :: "string \<Rightarrow> js_error" where
  "TypeError m = \<lparr>err_name = ''TypeError'', err_message = m, err_code = None, err_msg = None\<rparr>"

definition SyntaxError :: "string \<Rightarrow> js_error" where
  "SyntaxError m = \<lparr>err_name = ''SyntaxError'', err_message = m, err_code = None, err_msg = None\<rparr>"

text \<open>The \<open>DOMException\<close> a fetch rejects with when its signal aborts; its legacy
  \<open>code\<close> is 20.\<close>

definition AbortError :: js_error where
  "AbortError = \<lparr>err_name = ''AbortError'', err_message = ''The user aborted a request.'',
     err_code = Some 20, err_msg = None\<rparr>"

definition DataError :: js_error where
  "DataError = \<lparr>err_name = ''DataError'', err_message = ''HMAC key data must not be empty'',
     err_code = Some 0, err_msg = None\<rparr>"

subsection \<open>Message literals\<close>

text \<open>The UTF-8 bytes of the source literal that reads, in English,
  \<^emph>\<open>signature generation failed\<close>; its characters are
  U+7F72 U+540D U+306E U+751F U+6210 U+306B U+5931 U+6557 U+3057 U+307E U+3057 U+305F.\<close>

definition MSG_SIGN_FAILED :: string where
  "MSG_SIGN_FAILED = map char_of
    [0xE7, 0xBD, 0xB2, 0xE5, 0x90, 0x8D, 0xE3, 0x81, 0xAE, 0xE7, 0x94, 0x9F, 0xE6, 0x88,
     0x90, 0xE3, 0x81, 0xAB, 0xE5, 0xA4, 0xB1, 0xE6, 0x95, 0x97, 0xE3, 0x81, 0x97,
     0xE3, 0x81, 0xBE, 0xE3, 0x81, 0x97, 0xE3, 0x81, 0x9F :: nat]"

text \<open>The UTF-8 bytes of the source literal that reads, in English,
  \<^emph>\<open>the request timed out\<close>; its characters are
  U+30EA U+30AF U+30A8 U+30B9 U+30C8 U+304C U+30BF U+30A4 U+30E0 U+30A2 U+30A6 U+30C8
  U+3057 U+307E U+3057 U+305F.\<close>

definition MSG_TIMEOUT :: string where
  "MSG_TIMEOUT = map char_of
    [0xE3, 0x83, 0xAA, 0xE3, 0x82, 0xAF, 0xE3, 0x82, 0xA8, 0xE3, 0x82, 0xB9, 0xE3, 0x83,
     0x88, 0xE3, 0x81, 0x8C, 0xE3, 0x82, 0xBF, 0xE3, 0x82, 0xA4, 0xE3, 0x83, 0xA0,
     0xE3, 0x82, 0xA2, 0xE3, 0x82, 0xA6, 0xE3, 0x83, 0x88, 0xE3, 0x81, 0x97, 0xE3,
     0x81, 0xBE, 0xE3, 0x81, 0x97, 0xE3, 0x81, 0x9F :: nat]"

text \<open>The UTF-8 bytes of the source literal that reads, in English,
  \<^emph>\<open>a network connection error occurred; check the internet connection and the CORS settings\<close>; its characters are
  U+30CD U+30C3 U+30C8 U+30EF U+30FC U+30AF U+63A5 U+7D9A U+30A8 U+30E9 U+30FC U+304C
  U+767A U+751F U+3057 U+307E U+3057 U+305F U+3002 U+30A4 U+30F3 U+30BF U+30FC U+30CD
  U+30C3 U+30C8 U+63A5 U+7D9A U+3068 "CORS" U+8A2D U+5B9A U+3092 U+78BA U+8A8D U+3057
  U+3066 U+304F U+3060 U+3055 U+3044 U+3002.\<close>

definition MSG_NETWORK_CORS :: string where
  "MSG_NETWORK_CORS = map char_of
    [0xE3, 0x83, 0x8D, 0xE3, 0x83, 0x83, 0xE3, 0x83, 0x88, 0xE3, 0x83, 0xAF, 0xE3, 0x83,
     0xBC, 0xE3, 0x82, 0xAF, 0xE6, 0x8E, 0xA5, 0xE7, 0xB6, 0x9A, 0xE3, 0x82, 0xA8,
     0xE3, 0x83, 0xA9, 0xE3, 0x83, 0xBC, 0xE3, 0x81, 0x8C, 0xE7, 0x99, 0xBA, 0xE7,
     0x94, 0x9F, 0xE3, 0x81, 0x97, 0xE3, 0x81, 0xBE, 0xE3, 0x81, 0x97, 0xE3, 0x81,
     0x9F, 0xE3, 0x80, 0x82, 0xE3, 0x82, 0xA4, 0xE3, 0x83, 0xB3, 0xE3, 0x82, 0xBF,
     0xE3, 0x83, 0xBC, 0xE3, 0x83, 0x8D, 0xE3, 0x83, 0x83, 0xE3, 0x83, 0x88, 0xE6,
     0x8E, 0xA5, 0xE7, 0xB6, 0x9A, 0xE3, 0x81, 0xA8, 0x43, 0x4F, 0x52, 0x53, 0xE8,
     0xA8, 0xAD, 0xE5, 0xAE, 0x9A, 0xE3, 0x82, 0x92, 0xE7, 0xA2, 0xBA, 0xE8, 0xAA,
     0x8D, 0xE3, 0x81, 0x97, 0xE3, 0x81, 0xA6, 0xE3, 0x81, 0x8F, 0xE3, 0x81, 0xA0,
     0xE3, 0x81, 0x95, 0xE3, 0x81, 0x84, 0xE3, 0x80, 0x82 :: nat]"

text \<open>The UTF-8 bytes of the source literal that reads, in English,
  \<^emph>\<open>a network connection error occurred; check the internet connection\<close>; its characters are
  U+30CD U+30C3 U+30C8 U+30EF U+30FC U+30AF U+63A5 U+7D9A U+30A8 U+30E9 U+30FC U+304C
  U+767A U+751F U+3057 U+307E U+3057 U+305F U+3002 U+30A4 U+30F3 U+30BF U+30FC U+30CD
  U+30C3 U+30C8 U+63A5 U+7D9A U+3092 U+78BA U+8A8D U+3057 U+3066 U+304F U+3060 U+3055
  U+3044 U+3002.\<close>

definition MSG_NETWORK :: string where
  "MSG_NETWORK = map char_of
    [0xE3, 0x83, 0x8D, 0xE3, 0x83, 0x83, 0xE3, 0x83, 0x88, 0xE3, 0x83, 0xAF, 0xE3, 0x83,
     0xBC, 0xE3, 0x82, 0xAF, 0xE6, 0x8E, 0xA5, 0xE7, 0xB6, 0x9A, 0xE3, 0x82, 0xA8,
     0xE3, 0x83, 0xA9, 0xE3, 0x83, 0xBC, 0xE3, 0x81, 0x8C, 0xE7, 0x99, 0xBA, 0xE7,
     0x94, 0x9F, 0xE3, 0x81, 0x97, 0xE3, 0x81, 0xBE, 0xE3, 0x81, 0x97, 0xE3, 0x81,
     0x9F, 0xE3, 0x80, 0x82, 0xE3, 0x82, 0xA4, 0xE3, 0x83, 0xB3, 0xE3, 0x82, 0xBF,
     0xE3, 0x83, 0xBC, 0xE3, 0x83, 0x8D, 0xE3, 0x83, 0x83, 0xE3, 0x83, 0x88, 0xE6,
     0x8E, 0xA5, 0xE7, 0xB6, 0x9A, 0xE3, 0x82, 0x92, 0xE7, 0xA2, 0xBA, 0xE8, 0xAA,
     0x8D, 0xE3, 0x81, 0x97, 0xE3, 0x81, 0xA6, 0xE3, 0x81, 0x8F, 0xE3, 0x81, 0xA0,
     0xE3, 0x81, 0x95, 0xE3, 0x81, 0x84, 0xE3, 0x80, 0x82 :: nat]"

text \<open>The UTF-8 bytes of the source literal that reads, in English,
  \<^emph>\<open>the API request failed (\<close>; its characters are
  "API" U+30EA U+30AF U+30A8 U+30B9 U+30C8 U+304C U+5931 U+6557 U+3057 U+307E U+3057
  U+305F " (".\<close>

definition MSG_REQUEST_FAILED :: string where
  "MSG_REQUEST_FAILED = map char_of
    [0x41, 0x50, 0x49, 0xE3, 0x83, 0xAA, 0xE3, 0x82, 0xAF, 0xE3, 0x82, 0xA8, 0xE3, 0x82,
     0xB9, 0xE3, 0x83, 0x88, 0xE3, 0x81, 0x8C, 0xE5, 0xA4, 0xB1, 0xE6, 0x95, 0x97,
     0xE3, 0x81, 0x97, 0xE3, 0x81, 0xBE, 0xE3, 0x81, 0x97, 0xE3, 0x81, 0x9F, 0x20,
     0x28 :: nat]"

text \<open>The UTF-8 bytes of the source literal that reads, in English,
  \<^emph>\<open>Binance API error (\<close>; its characters are
  "Binance API" U+30A8 U+30E9 U+30FC " (".\<close>

definition MSG_BINANCE :: string where
  "MSG_BINANCE = map char_of
    [0x42, 0x69, 0x6E, 0x61, 0x6E, 0x63, 0x65, 0x20, 0x41, 0x50, 0x49, 0xE3, 0x82, 0xA8,
     0xE3, 0x83, 0xA9, 0xE3, 0x83, 0xBC, 0x20, 0x28 :: nat]"

text \<open>The UTF-8 bytes of the source literal that reads, in English,
  \<^emph>\<open>Binance API error\<close>; its characters are
  "Binance API" U+30A8 U+30E9 U+30FC.\<close>

definition MSG_BINANCE_ERROR :: string where
  "MSG_BINANCE_ERROR = map char_of
    [0x42, 0x69, 0x6E, 0x61, 0x6E, 0x63, 0x65, 0x20, 0x41, 0x50, 0x49, 0xE3, 0x82, 0xA8,
     0xE3, 0x83, 0xA9, 0xE3, 0x83, 0xBC :: nat]"

text \<open>The UTF-8 bytes of the source literal that reads, in English,
  \<^emph>\<open>fetching the price failed\<close>; its characters are
  U+4FA1 U+683C U+53D6 U+5F97 U+306B U+5931 U+6557 U+3057 U+307E U+3057 U+305F.\<close>

definition MSG_PRICE_FAILED :: string where
  "MSG_PRICE_FAILED = map char_of
    [0xE4, 0xBE, 0xA1, 0xE6, 0xA0, 0xBC, 0xE5, 0x8F, 0x96, 0xE5, 0xBE, 0x97, 0xE3, 0x81,
     0xAB, 0xE5, 0xA4, 0xB1, 0xE6, 0x95, 0x97, 0xE3, 0x81, 0x97, 0xE3, 0x81, 0xBE,
     0xE3, 0x81, 0x97, 0xE3, 0x81, 0x9F :: nat]"

text \<open>The UTF-8 bytes of the source literal that reads, in English,
  \<^emph>\<open>API key and secret are required\<close>; its characters are
  "API Key" U+3068 "Secret" U+304C U+5FC5 U+8981 U+3067 U+3059.\<close>

definition MSG_KEY_REQUIRED :: string where
  "MSG_KEY_REQUIRED = map char_of
    [0x41, 0x50, 0x49, 0x20, 0x4B, 0x65, 0x79, 0xE3, 0x81, 0xA8, 0x53, 0x65, 0x63, 0x72,
     0x65, 0x74, 0xE3, 0x81, 0x8C, 0xE5, 0xBF, 0x85, 0xE8, 0xA6, 0x81, 0xE3, 0x81,
     0xA7, 0xE3, 0x81, 0x99 :: nat]"







text \<open>The UTF-8 bytes of the source literal that reads, in English,
  \<^emph>\<open>the API request failed (default message of makeRequest)\<close>; its characters are
  "API" U+30EA U+30AF U+30A8 U+30B9 U+30C8 U+306B U+5931 U+6557 U+3057 U+307E U+3057
  U+305F.\<close>

definition MSG_REQUEST_DEFAULT :: string where
  "MSG_REQUEST_DEFAULT = map char_of
    [0x41, 0x50, 0x49, 0xE3, 0x83, 0xAA, 0xE3, 0x82, 0xAF, 0xE3, 0x82, 0xA8, 0xE3, 0x82,
     0xB9, 0xE3, 0x83, 0x88, 0xE3, 0x81, 0xAB, 0xE5, 0xA4, 0xB1, 0xE6, 0x95, 0x97,
     0xE3, 0x81, 0x97, 0xE3, 0x81, 0xBE, 0xE3, 0x81, 0x97, 0xE3, 0x81, 0x9F :: nat]"


section \<open>JavaScript numbers\<close>

text \<open>
  A \<open>number\<close> is an IEEE 754 binary64 value: a rational that the format represents, an
  infinity or NaN. The sign of zero is not tracked (\<open>-0 === 0\<close> in JavaScript, and no result
  below depends on it except the sign of a quotient by zero, which is taken as for \<open>+0\<close>).
  Every arithmetic operation computes the exact rational result and rounds it to the
  nearest representable value, ties to even.
\<close>

datatype number = Fin rat | PosInf | NegInf | NaN

fun bitlength :: "nat \<Rightarrow> nat" where
  "bitlength n = (if n = 0 then 0 else Suc (bitlength (n div 2)))"

declare bitlength.simps [simp del]

definition pow2 :: "int \<Rightarrow> rat" where
  "pow2 e = (if 0 \<le> e then 2 ^ nat e else 1 / 2 ^ nat (- e))"

text \<open>The binary exponent of a non-zero rational: \<open>pow2 (expo x) \<le> \<bar>x\<bar> < pow2 (expo x + 1)\<close>.\<close>

definition expo :: "rat \<Rightarrow> int" where
  "expo x =
     (case quotient_of \<bar>x\<bar> of
        (p, q) \<Rightarrow>
          (let d = int (bitlength (nat p)) - int (bitlength (nat q))
           in if pow2 d \<le> \<bar>x\<bar> then d else d - 1))"

definition round_half_even :: "rat \<Rightarrow> int" where
  "round_half_even y =
     (let f = \<lfloor>y\<rfloor>; r = y - of_int f
      in if r < 1 / 2 then f
         else if 1 / 2 < r then f + 1
         else if even f then f else f + 1)"

text \<open>
  Rounding to binary64: 53 significant bits, so the last bit of a number with binary
  exponent \<open>k\<close> weighs \<open>pow2 (k - 52)\<close>, and never less than \<open>pow2 (- 1074)\<close> (the
  subnormal numbers). A rounded magnitude of \<open>2 ^ 1024\<close> or more overflows to an infinity.
\<close>

definition quantum_exponent :: "rat \<Rightarrow> int" where
  "quantum_exponent x = max (expo x - 52) (- 1074)"

definition round_finite :: "rat \<Rightarrow> rat" where
  "round_finite x =
     of_int (round_half_even (x / pow2 (quantum_exponent x))) * pow2 (quantum_exponent x)"

definition round_binary64 :: "rat \<Rightarrow> number" where
  "round_binary64 x =
     (if x = 0 then Fin 0
      else if 2 ^ 1024 \<le> \<bar>round_finite x\<bar> then (if 0 < x then PosInf else NegInf)
      else Fin (round_finite x))"

text \<open>The values a \<open>number\<close> can really hold.\<close>

fun is_double :: "number \<Rightarrow> bool" where
  "is_double (Fin x) = (round_binary64 x = Fin x)"
| "is_double PosInf = True"
| "is_double NegInf = True"
| "is_double NaN = True"

text \<open>The infinity with the sign of \<open>s\<close>; NaN for \<open>s = 0\<close> (as in \<open>Infinity * 0\<close> and \<open>0 / 0\<close>).\<close>

definition inf_of_sign :: "rat \<Rightarrow> number" where
  "inf_of_sign s = (if 0 < s then PosInf else if s < 0 then NegInf else NaN)"

fun num_neg :: "number \<Rightarrow> number" where
  "num_neg (Fin a) = Fin (- a)"
| "num_neg PosInf = NegInf"
| "num_neg NegInf = PosInf"
| "num_neg NaN = NaN"

fun num_add :: "number \<Rightarrow> number \<Rightarrow> number" where
  "num_add NaN b = NaN"
| "num_add a NaN = NaN"
| "num_add (Fin a) (Fin b) = round_binary64 (a + b)"
| "num_add (Fin a) PosInf = PosInf"
| "num_add (Fin a) NegInf = NegInf"
| "num_add PosInf (Fin b) = PosInf"
| "num_add NegInf (Fin b) = NegInf"
| "num_add PosInf PosInf = PosInf"
| "num_add NegInf NegInf = NegInf"
| "num_add PosInf NegInf = NaN"
| "num_add NegInf PosInf = NaN"

definition num_sub :: "number \<Rightarrow> number \<Rightarrow> number" where
  "num_sub a b = num_add a (num_neg b)"

fun num_mul :: "number \<Rightarrow> number \<Rightarrow> number" where
  "num_mul NaN b = NaN"
| "num_mul a NaN = NaN"
| "num_mul (Fin a) (Fin b) = round_binary64 (a * b)"
| "num_mul (Fin a) PosInf = inf_of_sign a"
| "num_mul (Fin a) NegInf = inf_of_sign (- a)"
| "num_mul PosInf (Fin b) = inf_of_sign b"
| "num_mul NegInf (Fin b) = inf_of_sign (- b)"
| "num_mul PosInf PosInf = PosInf"
| "num_mul NegInf NegInf = PosInf"
| "num_mul PosInf NegInf = NegInf"
| "num_mul NegInf PosInf = NegInf"

fun num_div :: "number \<Rightarrow> number \<Rightarrow> number" where
  "num_div NaN b = NaN"
| "num_div a NaN = NaN"
| "num_div (Fin a) (Fin b) = (if b = 0 then inf_of_sign a else round_binary64 (a / b))"
| "num_div (Fin a) PosInf = Fin 0"
| "num_div (Fin a) NegInf = Fin 0"
| "num_div PosInf (Fin b) = (if 0 \<le> b then PosInf else NegInf)"
| "num_div NegInf (Fin b) = (if 0 \<le> b then NegInf else PosInf)"
| "num_div PosInf PosInf = NaN"
| "num_div NegInf NegInf = NaN"
| "num_div PosInf NegInf = NaN"
| "num_div NegInf PosInf = NaN"

text \<open>\<open>a < b\<close> on numbers: false as soon as one side is NaN.\<close>

fun num_less :: "number \<Rightarrow> number \<Rightarrow> bool" where
  "num_less NaN b = False"
| "num_less a NaN = False"
| "num_less (Fin a) (Fin b) = (a < b)"
| "num_less (Fin a) PosInf = True"
| "num_less (Fin a) NegInf = False"
| "num_less PosInf b = False"
| "num_less NegInf NegInf = False"
| "num_less NegInf b = True"

text \<open>\<open>a <= b\<close> on numbers: false as soon as one side is NaN.\<close>

fun num_le :: "number \<Rightarrow> number \<Rightarrow> bool" where
  "num_le NaN b = False"
| "num_le a NaN = False"
| "num_le (Fin a) (Fin b) = (a \<le> b)"
| "num_le (Fin a) PosInf = True"
| "num_le (Fin a) NegInf = False"
| "num_le PosInf PosInf = True"
| "num_le PosInf b = False"
| "num_le NegInf b = True"

text \<open>
  \<open>ToLength\<close> of ECMAScript, used by \<open>Array.from\<close> on \<open>{ length: l }\<close>: NaN and
  everything below 1 give 0, a fraction is truncated, the result is at most \<open>2 ^ 53 - 1\<close>.
\<close>

fun ToLength :: "number \<Rightarrow> nat" where
  "ToLength NaN = 0"
| "ToLength NegInf = 0"
| "ToLength PosInf = 2 ^ 53 - 1"
| "ToLength (Fin x) = (if x \<le> 0 then 0 else min (nat \<lfloor>x\<rfloor>) (2 ^ 53 - 1))"

definition RangeError :: "string \<Rightarrow> js_error" where
  "RangeError m = \<lparr>err_name = ''RangeError'', err_message = m, err_code = None, err_msg = None\<rparr>"

text \<open>
  \<open>Array.from({ length: l }, (_, i) => f(i))\<close>: the array is created with the length first,
  which throws a \<open>RangeError\<close> above \<open>2 ^ 32 - 1\<close>; then \<open>f\<close> is called on the indices
  \<open>0, 1, ...\<close> in order, each index a number.
\<close>

definition Array_from_length :: "number \<Rightarrow> (number \<Rightarrow> 'a) \<Rightarrow> js_error + 'a list" where
  "Array_from_length l f =
     (let len = ToLength l
      in if 2 ^ 32 - 1 < len then Inl (RangeError ''Invalid array length'')
         else Inr (map (\<lambda>i. f (Fin (of_nat i))) [0..<len]))"

section \<open>Grid settings (src/hooks/useGridSettings.ts)\<close>

record GridSettings =
  upperLimit :: number
  lowerLimit :: number
  gridNumber :: number
  initialInvestment :: number
  stopLoss :: number
  takeProfitLevel :: number



text \<open>The state of the hook: the two \<open>useState\<close> cells.\<close>

record hook_state =
  settings :: GridSettings
  isDirty :: bool

definition defaultSettings :: GridSettings where
  "defaultSettings =
     \<lparr>upperLimit = Fin 30000, lowerLimit = Fin 25000, gridNumber = Fin 10,
      initialInvestment = Fin 1000, stopLoss = Fin 24000, takeProfitLevel = Fin 31000\<rparr>"


definition calculateGridInterval :: "hook_state \<Rightarrow> number" where
  "calculateGridInterval st =
     num_div (num_sub (upperLimit (settings st)) (lowerLimit (settings st))) (gridNumber (settings st))"

definition calculateGridLines :: "hook_state \<Rightarrow> js_error + number list" where
  "calculateGridLines st =
     (let upperLimit = upperLimit (settings st);
          lowerLimit = lowerLimit (settings st);
          gridNumber = gridNumber (settings st);
          interval = num_div (num_sub upperLimit lowerLimit) gridNumber
      in Array_from_length (num_add gridNumber (Fin 1))
           (\<lambda>i. num_add lowerLimit (num_mul interval i)))"

text \<open>What the specification calls a valid configuration: \<open>upperLimit > lowerLimit\<close> and
  \<open>gridNumber\<close> an integer that is at least 1.\<close>

definition valid_configuration :: "GridSettings \<Rightarrow> bool" where
  "valid_configuration s =
     (num_less (lowerLimit s) (upperLimit s) \<and>
      (case gridNumber s of Fin n \<Rightarrow> 1 \<le> n \<and> of_int \<lfloor>n\<rfloor> = n | _ \<Rightarrow> False))"

section \<open>HTTP: requests, responses and the network\<close>

text \<open>
  What a call hands to \<open>fetch\<close> or \<open>axios\<close>. \<open>req_timeout\<close> is the bound in milliseconds
  after which the call is aborted (an \<open>AbortController\<close> armed by \<open>setTimeout\<close>, or the
  \<open>timeout\<close> option of axios); \<open>None\<close> when the call arms none.
\<close>

record http_request =
  req_method :: string
  req_url :: string
  req_headers :: "(string \<times> string) list"
  req_body :: "string option"
  req_timeout :: "nat option"

text \<open>Parsed JSON values; an object is the list of its properties, with distinct keys.\<close>

datatype json =
    JNull
  | JBool bool
  | JNumber number
  | JString string
  | JArray "json list"
  | JObject "(string \<times> json) list"

text \<open>
  A response body either arrives or stalls for ever. When it arrives it is a text together
  with what \<open>JSON.parse\<close> makes of it (\<open>None\<close> when it is not JSON).
\<close>

datatype body = Stalls | Body string "json option"

record http_response =
  resp_status :: nat
  resp_body :: body

definition ok :: "http_response \<Rightarrow> bool" where
  "ok r = (200 \<le> resp_status r \<and> resp_status r \<le> 299)"

text \<open>
  The behaviour of the network on one request: the response head arrives after \<open>t\<close>
  milliseconds, or the connection fails after \<open>t\<close> milliseconds and the platform raises a
  \<open>TypeError\<close> with its own message (\<open>Failed to fetch\<close> in Chromium), or nothing ever
  comes back.
\<close>

datatype network = Answers nat http_response | Breaks nat string | Silent

text \<open>
  \<open>await fetch(url, options)\<close>: \<open>None\<close> when the promise never settles, \<open>Inl\<close> when it
  rejects. A request with a bound is aborted when nothing has settled before the bound.
\<close>

definition fetch :: "(http_request \<Rightarrow> network) \<Rightarrow> http_request \<Rightarrow> (js_error + http_response) option" where
  "fetch net req =
     (case net req of
        Answers t r \<Rightarrow>
          (case req_timeout req of
             None \<Rightarrow> Some (Inr r)
           | Some T \<Rightarrow> if t < T then Some (Inr r) else Some (Inl AbortError))
      | Breaks t m \<Rightarrow>
          (case req_timeout req of
             None \<Rightarrow> Some (Inl (TypeError m))
           | Some T \<Rightarrow> if t < T then Some (Inl (TypeError m)) else Some (Inl AbortError))
      | Silent \<Rightarrow>
          (case req_timeout req of
             None \<Rightarrow> None
           | Some T \<Rightarrow> Some (Inl AbortError)))"

text \<open>\<open>await response.text()\<close> and \<open>await response.json()\<close>.\<close>

definition response_text :: "http_response \<Rightarrow> string option" where
  "response_text r = (case resp_body r of Stalls \<Rightarrow> None | Body s j \<Rightarrow> Some s)"

definition response_json :: "http_response \<Rightarrow> (js_error + json) option" where
  "response_json r =
     (case resp_body r of
        Stalls \<Rightarrow> None
      | Body s None \<Rightarrow> Some (Inl (SyntaxError ''Unexpected token''))
      | Body s (Some j) \<Rightarrow> Some (Inr j))"

section \<open>The browser-side exchange client (src/services/binanceApi.ts)\<close>

definition TEST_API_BASE_URL :: string where
  "TEST_API_BASE_URL = ''https://testnet.binance.vision/api/v3''"



record BinanceApiClient =
  apiKey :: string
  apiSecret :: string
  baseUrl :: string


text \<open>
  HMAC-SHA256 itself is the platform's: \<open>hmac key message\<close> is the 32-byte code, the same
  mathematical function behind \<open>crypto.subtle.sign\<close> and \<open>crypto.createHmac\<close>.
  \<open>crypto.subtle.importKey\<close> rejects key material of length zero with a \<open>DataError\<close>
  (Web Cryptography API, HMAC, import key: ``if length is zero then throw a DataError'').
\<close>

type_synonym hmac = "uint8 list \<Rightarrow> uint8 list \<Rightarrow> uint8 list"

definition subtle_importKey :: "uint8 list \<Rightarrow> js_error + uint8 list" where
  "subtle_importKey keyData = (if keyData = [] then Inl DataError else Inr keyData)"

definition generateSignature :: "hmac \<Rightarrow> BinanceApiClient \<Rightarrow> string \<Rightarrow> js_error + string" where
  "generateSignature hmac this queryString =
     (let keyData = TextEncoder_encode (apiSecret this);
          messageData = TextEncoder_encode queryString
      in case subtle_importKey keyData of
           Inl error \<Rightarrow> Inl (new_Error MSG_SIGN_FAILED)
         | Inr cryptoKey \<Rightarrow>
             (let signature = hmac cryptoKey messageData
              in Inr (concat (map (\<lambda>b. padStart 2 (CHR ''0'') (toString16 (unat b))) signature))))"

text \<open>
  \<open>validateCredentials\<close>: one signed GET of \<open>/account\<close>, with no abort signal. Every
  exception is caught and turned into \<open>false\<close>. The result is \<open>None\<close> when the call never
  returns, \<open>Some (Inl e)\<close> when it throws \<open>e\<close>, \<open>Some (Inr b)\<close> when it returns \<open>b\<close>.
  \<open>now\<close> is the value of \<open>Date.now()\<close>.
\<close>

definition validateCredentials_request :: "BinanceApiClient \<Rightarrow> string \<Rightarrow> string \<Rightarrow> http_request" where
  "validateCredentials_request this queryString signature =
     \<lparr>req_method = ''GET'',
      req_url = baseUrl this @ ''/account?'' @ queryString @ ''&signature='' @ signature,
      req_headers = [(''X-MBX-APIKEY'', apiKey this)],
      req_body = None,
      req_timeout = None\<rparr>"

definition validateCredentials ::
  "hmac \<Rightarrow> nat \<Rightarrow> (http_request \<Rightarrow> network) \<Rightarrow> BinanceApiClient \<Rightarrow> (js_error + bool) option" where
  "validateCredentials hmac now net this =
     (let timestamp = toString10 now;
          queryString = ''timestamp='' @ timestamp
      in case generateSignature hmac this queryString of
           Inl error \<Rightarrow> Some (Inr False)
         | Inr signature \<Rightarrow>
             (case fetch net (validateCredentials_request this queryString signature) of
                None \<Rightarrow> None
              | Some (Inl error) \<Rightarrow> Some (Inr False)
              | Some (Inr response) \<Rightarrow>
                  if \<not> ok response then
                    (case response_text response of
                       None \<Rightarrow> None
                     | Some errorText \<Rightarrow> Some (Inr False))
                  else
                    (case response_json response of
                       None \<Rightarrow> None
                     | Some (Inl error) \<Rightarrow> Some (Inr False)
                     | Some (Inr data) \<Rightarrow> Some (Inr True))))"

subsection \<open>Query strings\<close>

text \<open>
  \<open>new URLSearchParams(obj).toString()\<close>: the \<open>application/x-www-form-urlencoded\<close>
  serialisation. Letters, digits and \<open>* - . _\<close> stay, a space becomes \<open>+\<close>, every other
  byte becomes \<open>%XX\<close> in upper-case hexadecimal.
\<close>

definition urlencoded_plain :: "char \<Rightarrow> bool" where
  "urlencoded_plain c =
     (let n = (of_char c :: nat)
      in (48 \<le> n \<and> n \<le> 57) \<or> (65 \<le> n \<and> n \<le> 90) \<or> (97 \<le> n \<and> n \<le> 122) \<or>
         c = CHR ''*'' \<or> c = CHR ''-'' \<or> c = CHR ''.'' \<or> c = CHR ''_'')"

definition upper_digit_char :: "nat \<Rightarrow> char" where
  "upper_digit_char d = ''0123456789ABCDEF'' ! d"

definition urlencode_char :: "char \<Rightarrow> string" where
  "urlencode_char c =
     (if urlencoded_plain c then [c]
      else if c = CHR '' '' then ''+''
      else [CHR ''%'', upper_digit_char ((of_char c :: nat) div 16),
            upper_digit_char ((of_char c :: nat) mod 16)])"

definition urlencode :: "string \<Rightarrow> string" where
  "urlencode s = concat (map urlencode_char s)"

fun join :: "string \<Rightarrow> string list \<Rightarrow> string" where
  "join sep [] = []"
| "join sep [s] = s"
| "join sep (s # t # ss) = s @ sep @ join sep (t # ss)"

definition URLSearchParams_toString :: "(string \<times> string) list \<Rightarrow> string" where
  "URLSearchParams_toString ps = join ''&'' (map (\<lambda>(k, v). urlencode k @ ''='' @ urlencode v) ps)"

text \<open>
  An object literal is the list of its properties in insertion order. Writing a property
  that exists keeps its place; a new one goes last (the keys used here are not
  integer-like, so no reordering applies).
\<close>

fun set_property :: "string \<Rightarrow> 'v \<Rightarrow> (string \<times> 'v) list \<Rightarrow> (string \<times> 'v) list" where
  "set_property k v [] = [(k, v)]"
| "set_property k v (p # ps) = (if fst p = k then (k, v) # ps else p # set_property k v ps)"

subsection \<open>Requests of the browser-side client\<close>

definition handleError :: "js_error \<Rightarrow> string \<Rightarrow> js_error" where
  "handleError error defaultMessage =
     (case err_code error of
        Some c \<Rightarrow>
          if c \<noteq> 0 then
            new_Error (MSG_BINANCE @ toString10 c @ ''): '' @
              (case err_msg error of None \<Rightarrow> ''undefined'' | Some m \<Rightarrow> m))
          else if str_includes (err_message error) ''Failed to fetch'' then new_Error MSG_NETWORK
          else error
      | None \<Rightarrow>
          if str_includes (err_message error) ''Failed to fetch'' then new_Error MSG_NETWORK
          else error)"

definition makeRequest_request :: "BinanceApiClient \<Rightarrow> string \<Rightarrow> string \<Rightarrow> string \<Rightarrow> http_request" where
  "makeRequest_request this endpoint queryString signature =
     \<lparr>req_method = ''GET'',
      req_url = baseUrl this @ endpoint @ ''?'' @ queryString @ ''&signature='' @ signature,
      req_headers = [(''X-MBX-APIKEY'', apiKey this)],
      req_body = None,
      req_timeout = Some 10000\<rparr>"

text \<open>The inner \<open>catch\<close> of \<open>makeRequest\<close>: what it throws on to the outer one.\<close>

definition makeRequest_rethrow :: "js_error \<Rightarrow> js_error" where
  "makeRequest_rethrow error =
     (if err_name error = ''AbortError'' then new_Error MSG_TIMEOUT
      else if err_name error = ''TypeError'' \<and> str_includes (err_message error) ''Failed to fetch''
        then new_Error MSG_NETWORK_CORS
      else error)"

text \<open>
  \<open>makeRequest\<close>. The abort timer is armed before \<open>fetch\<close> and cleared as soon as the
  response head is there; the body is read afterwards, under no timer.
\<close>

definition makeRequest ::
  "hmac \<Rightarrow> nat \<Rightarrow> (http_request \<Rightarrow> network) \<Rightarrow> BinanceApiClient \<Rightarrow> string \<Rightarrow>
     (string \<times> string) list \<Rightarrow> (js_error + json) option" where
  "makeRequest hmac now net this endpoint params =
     (let timestamp = toString10 now;
          queryString = URLSearchParams_toString (set_property ''timestamp'' timestamp params)
      in case generateSignature hmac this queryString of
           Inl error \<Rightarrow> Some (Inl (handleError error MSG_REQUEST_DEFAULT))
         | Inr signature \<Rightarrow>
             (case fetch net (makeRequest_request this endpoint queryString signature) of
                None \<Rightarrow> None
              | Some (Inl error) \<Rightarrow>
                  Some (Inl (handleError (makeRequest_rethrow error) MSG_REQUEST_DEFAULT))
              | Some (Inr response) \<Rightarrow>
                  if \<not> ok response then
                    (case response_text response of
                       None \<Rightarrow> None
                     | Some errorText \<Rightarrow>
                         Some (Inl (handleError
                           (makeRequest_rethrow
                              (new_Error (MSG_REQUEST_FAILED @ toString10 (resp_status response) @
                                 ''): '' @ errorText)))
                           MSG_REQUEST_DEFAULT)))
                  else
                    (case response_json response of
                       None \<Rightarrow> None
                     | Some (Inl error) \<Rightarrow>
                         Some (Inl (handleError (makeRequest_rethrow error) MSG_REQUEST_DEFAULT))
                     | Some (Inr data) \<Rightarrow> Some (Inr data))))"



text \<open>The request \<open>getCurrentPrice\<close> puts on the wire, when the signature can be built.\<close>

definition getCurrentPrice_request ::
  "hmac \<Rightarrow> nat \<Rightarrow> BinanceApiClient \<Rightarrow> string \<Rightarrow> js_error + http_request" where
  "getCurrentPrice_request hmac now this symbol =
     (let queryString =
            URLSearchParams_toString (set_property ''timestamp'' (toString10 now) [(''symbol'', symbol)])
      in case generateSignature hmac this queryString of
           Inl error \<Rightarrow> Inl error
         | Inr signature \<Rightarrow> Inr (makeRequest_request this ''/ticker/price'' queryString signature))"

text \<open>
  An error that carries a message only: a plain \<open>Error\<close>, \<open>TypeError\<close> or
  \<open>SyntaxError\<close> with neither \<open>code\<close> nor \<open>msg\<close>.
\<close>

definition untyped :: "js_error \<Rightarrow> bool" where
  "untyped e = (err_code e = None \<and> err_msg e = None \<and>
     (err_name e = ''Error'' \<or> err_name e = ''TypeError'' \<or> err_name e = ''SyntaxError''))"

section \<open>The proxy-side client (the second BinanceApiClient, src/unnamed/part_002)\<close>

text \<open>
  The second class of the same name talks to a backend without signing. Its
  \<open>validateCredentials\<close> is that of the first class up to what it logs, and its
  \<open>generateSignature\<close> differs only in appending the cause to the message of the error
  it throws; its \<open>makeRequest\<close> and the methods built on it are below. The request
  body, when there is one, is the JSON text of the argument.
\<close>

definition makeRequest_part002_request ::
  "BinanceApiClient \<Rightarrow> string \<Rightarrow> string \<Rightarrow> string option \<Rightarrow> http_request" where
  "makeRequest_part002_request this endpoint method body =
     \<lparr>req_method = method,
      req_url = baseUrl this @ endpoint,
      req_headers = [(''Content-Type'', ''application/json'')],
      req_body = body,
      req_timeout = None\<rparr>"

definition makeRequest_part002 ::
  "(http_request \<Rightarrow> network) \<Rightarrow> BinanceApiClient \<Rightarrow> string \<Rightarrow> string \<Rightarrow> string option \<Rightarrow>
     (js_error + json) option" where
  "makeRequest_part002 net this endpoint method body =
     (case fetch net (makeRequest_part002_request this endpoint method body) of
        None \<Rightarrow> None
      | Some (Inl error) \<Rightarrow> Some (Inl error)
      | Some (Inr response) \<Rightarrow>
          if \<not> ok response then
            Some (Inl (new_Error (''HTTP error! status: '' @ toString10 (resp_status response))))
          else response_json response)"


definition cancelOrder_part002 ::
  "(http_request \<Rightarrow> network) \<Rightarrow> BinanceApiClient \<Rightarrow> string \<Rightarrow> nat \<Rightarrow> (js_error + json) option" where
  "cancelOrder_part002 net this symbol orderId =
     makeRequest_part002 net this (''/orders/'' @ toString10 orderId @ ''?symbol='' @ symbol)
       ''DELETE'' None"

section \<open>The proxy server (server.js)\<close>

definition BINANCE_API_URL :: string where
  "BINANCE_API_URL = ''https://api.binance.com''"

text \<open>
  \<open>crypto.createHmac('sha256', key).update(message).digest('hex')\<close>: strings are taken
  as UTF-8, and the \<open>hex\<close> digest writes every byte as two lower-case hexadecimal digits.
\<close>

definition digest_hex :: "uint8 list \<Rightarrow> string" where
  "digest_hex bs = concat (map (\<lambda>b. [digit_char (unat b div 16), digit_char (unat b mod 16)]) bs)"

definition generateSignature_server :: "hmac \<Rightarrow> string \<Rightarrow> string \<Rightarrow> string" where
  "generateSignature_server hmac queryString apiSecret' =
     digest_hex (hmac (TextEncoder_encode apiSecret') (TextEncoder_encode queryString))"

text \<open>
  \<open>axios(config)\<close>: the promise resolves with a 2xx response once its body is there,
  rejects with the response attached for any other status, and rejects without a response
  when the connection fails or when the \<open>timeout\<close> elapses first. The time-out is the idle
  time-out of the socket and covers the body; the network below is either silent or
  delivers at once, so it bounds the whole call. \<open>None\<close>: the promise never settles.
\<close>

record axios_error =
  ax_message :: string
  ax_response :: "http_response option"

definition axios_timeout_error :: "nat \<Rightarrow> axios_error" where
  "axios_timeout_error T =
     \<lparr>ax_message = ''timeout of '' @ toString10 T @ ''ms exceeded'', ax_response = None\<rparr>"

definition axios_settle :: "http_response \<Rightarrow> axios_error + http_response" where
  "axios_settle r =
     (if ok r then Inr r
      else Inl \<lparr>ax_message = ''Request failed with status code '' @ toString10 (resp_status r),
                ax_response = Some r\<rparr>)"

definition axios :: "(http_request \<Rightarrow> network) \<Rightarrow> http_request \<Rightarrow> (axios_error + http_response) option" where
  "axios net req =
     (case net req of
        Answers t r \<Rightarrow>
          (case req_timeout req of
             None \<Rightarrow> (case resp_body r of Stalls \<Rightarrow> None | Body s j \<Rightarrow> Some (axios_settle r))
           | Some T \<Rightarrow>
               (case resp_body r of
                  Stalls \<Rightarrow> Some (Inl (axios_timeout_error T))
                | Body s j \<Rightarrow>
                    if t < T then Some (axios_settle r) else Some (Inl (axios_timeout_error T))))
      | Breaks t m \<Rightarrow>
          (case req_timeout req of
             None \<Rightarrow> Some (Inl \<lparr>ax_message = m, ax_response = None\<rparr>)
           | Some T \<Rightarrow>
               if t < T then Some (Inl \<lparr>ax_message = m, ax_response = None\<rparr>)
               else Some (Inl (axios_timeout_error T)))
      | Silent \<Rightarrow>
          (case req_timeout req of
             None \<Rightarrow> None
           | Some T \<Rightarrow> Some (Inl (axios_timeout_error T))))"

text \<open>\<open>response.data\<close>: the parsed body, or the text itself when it is not JSON.\<close>

definition response_data :: "http_response \<Rightarrow> json" where
  "response_data r =
     (case resp_body r of
        Stalls \<Rightarrow> JNull
      | Body s None \<Rightarrow> JString s
      | Body s (Some j) \<Rightarrow> j)"

fun truthy :: "json \<Rightarrow> bool" where
  "truthy JNull = False"
| "truthy (JBool b) = b"
| "truthy (JNumber n) = (n \<noteq> Fin 0 \<and> n \<noteq> NaN)"
| "truthy (JString s) = (s \<noteq> [])"
| "truthy (JArray xs) = True"
| "truthy (JObject ps) = True"

text \<open>What a route answers: \<open>res.status(code).json(value)\<close>.\<close>

record proxy_reply =
  reply_status :: nat
  reply_json :: json

text \<open>The \<open>catch\<close> block shared, up to its label, by both routes.\<close>

definition error_reply :: "string \<Rightarrow> axios_error \<Rightarrow> proxy_reply" where
  "error_reply label error =
     \<lparr>reply_status =
        (case ax_response error of
           None \<Rightarrow> 500
         | Some r \<Rightarrow> if resp_status r \<noteq> 0 then resp_status r else 500),
      reply_json = JObject
        [(''error'', JString label),
         (''details'',
            (case ax_response error of
               None \<Rightarrow> JString (ax_message error)
             | Some r \<Rightarrow>
                 if truthy (response_data r) then response_data r
                 else JString (ax_message error)))]\<rparr>"

text \<open>
  \<open>GET /api/balance\<close>. \<open>query\<close> is \<open>req.query\<close>; a missing parameter is \<open>None\<close>, and
  \<open>!apiKey\<close> holds for a missing or an empty one (a repeated parameter, which would
  arrive as an array, is not modelled). The primed names are the handler's local
  \<open>apiKey\<close> and \<open>apiSecret\<close>.
\<close>

definition balance_request :: "hmac \<Rightarrow> nat \<Rightarrow> string \<Rightarrow> string \<Rightarrow> http_request" where
  "balance_request hmac now apiKey' apiSecret' =
     (let timestamp = toString10 now;
          queryString = ''timestamp='' @ timestamp;
          signature = generateSignature_server hmac queryString apiSecret'
      in \<lparr>req_method = ''get'',
          req_url = BINANCE_API_URL @ ''/api/v3/account?'' @ queryString @ ''&signature='' @ signature,
          req_headers = [(''X-MBX-APIKEY'', apiKey'), (''User-Agent'', ''Mozilla/5.0''),
                         (''Accept'', ''application/json'')],
          req_body = None,
          req_timeout = Some 10000\<rparr>)"

definition bad_request :: proxy_reply where
  "bad_request = \<lparr>reply_status = 400, reply_json = JObject [(''error'', JString MSG_KEY_REQUIRED)]\<rparr>"

definition api_balance ::
  "hmac \<Rightarrow> nat \<Rightarrow> (http_request \<Rightarrow> network) \<Rightarrow> (string \<Rightarrow> string option) \<Rightarrow> proxy_reply option" where
  "api_balance hmac now net query =
     (case query ''apiKey'' of
        None \<Rightarrow> Some bad_request
      | Some apiKey' \<Rightarrow>
          (case query ''apiSecret'' of
             None \<Rightarrow> Some bad_request
           | Some apiSecret' \<Rightarrow>
               if apiKey' = [] \<or> apiSecret' = [] then Some bad_request
               else
                 (case axios net (balance_request hmac now apiKey' apiSecret') of
                    None \<Rightarrow> None
                  | Some (Inl error) \<Rightarrow> Some (error_reply MSG_BINANCE_ERROR error)
                  | Some (Inr response) \<Rightarrow>
                      Some \<lparr>reply_status = 200, reply_json = response_data response\<rparr>)))"

text \<open>\<open>GET /api/price/:symbol\<close>.\<close>

definition price_request :: "string \<Rightarrow> http_request" where
  "price_request symbol =
     \<lparr>req_method = ''get'',
      req_url = BINANCE_API_URL @ ''/api/v3/ticker/price?symbol='' @ symbol,
      req_headers = [(''Accept'', ''application/json'')],
      req_body = None,
      req_timeout = Some 5000\<rparr>"

definition api_price :: "(http_request \<Rightarrow> network) \<Rightarrow> string \<Rightarrow> proxy_reply option" where
  "api_price net symbol =
     (case axios net (price_request symbol) of
        None \<Rightarrow> None
      | Some (Inl error) \<Rightarrow> Some (error_reply MSG_PRICE_FAILED error)
      | Some (Inr response) \<Rightarrow>
          Some \<lparr>reply_status = 200, reply_json = response_data response\<rparr>)"

section \<open>The application component (src/App.tsx)\<close>

record Order =
  order_id :: nat
  order_type :: string
  order_price :: number
  order_amount :: number
  order_status :: "string option"












section \<open>The order ledger\<close>

text \<open>Modelled from the spec: the statuses of an order and the errors of the ledger. The
  repository tracks no order lifecycle (\<open>Order.status\<close> is a free string that no code
  writes), so the ledger below is the one the specification describes.\<close>

datatype order_status = PENDING | OPEN | FILLED | CANCELLED | REJECTED

datatype ledger_error = LogicError | OrderNotFound

text \<open>Modelled from the spec: the terminal statuses.\<close>

definition terminal :: "order_status \<Rightarrow> bool" where
  "terminal s = (s = FILLED \<or> s = CANCELLED \<or> s = REJECTED)"

text \<open>Modelled from the spec: the order ledger's state machine, which the repository
  does not contain, \<open>PENDING \<rightarrow> OPEN \<rightarrow> {FILLED | CANCELLED | REJECTED}\<close>.\<close>

fun allowed :: "order_status \<Rightarrow> order_status \<Rightarrow> bool" where
  "allowed PENDING OPEN = True"
| "allowed OPEN FILLED = True"
| "allowed OPEN CANCELLED = True"
| "allowed OPEN REJECTED = True"
| "allowed from to = False"

text \<open>Modelled from the spec: the ledger's transition operation, which the repository
  does not contain. It applies a status confirmed by the exchange to the order \<open>orderId\<close>
  and fails with a logic error on a transition the state machine does not have.\<close>

definition transition ::
  "(nat \<Rightarrow> order_status option) \<Rightarrow> nat \<Rightarrow> order_status \<Rightarrow> ledger_error + (nat \<Rightarrow> order_status option)" where
  "transition ledger orderId to =
     (case ledger orderId of
        None \<Rightarrow> Inl OrderNotFound
      | Some from \<Rightarrow>
          if allowed from to then Inr (ledger(orderId \<mapsto> to)) else Inl LogicError)"

text \<open>Modelled from the spec: a run of the ledger over a list of confirmed status
  updates; an update that fails leaves the ledger as it was.\<close>

fun run :: "(nat \<Rightarrow> order_status option) \<Rightarrow> (nat \<times> order_status) list \<Rightarrow> (nat \<Rightarrow> order_status option)" where
  "run ledger [] = ledger"
| "run ledger ((orderId, to) # updates) =
     (case transition ledger orderId to of
        Inl error \<Rightarrow> run ledger updates
      | Inr ledger' \<Rightarrow> run ledger' updates)"

section \<open>Properties of the number model\<close>

lemma bitlength_bounds:
  "0 < n \<Longrightarrow> 2 ^ (bitlength n - 1) \<le> n \<and> n < 2 ^ bitlength n"
proof (induction n rule: bitlength.induct)
  case (1 n)
  show ?case
  proof (cases "n div 2 = 0")
    case True
    with 1 have "n = 1" by (simp add: div_eq_0_iff) 
    then show ?thesis by (simp add: bitlength.simps)
  next
    case False
    then have pos: "0 < n div 2" by simp
    from 1 have n0: "n \<noteq> 0" by simp
    from "1.IH"[OF n0 pos] have lo: "2 ^ (bitlength (n div 2) - 1) \<le> n div 2"
      and hi: "n div 2 < 2 ^ bitlength (n div 2)" by simp_all
    have bl: "bitlength n = Suc (bitlength (n div 2))" using n0 by (simp add: bitlength.simps[of n])
    have blpos: "0 < bitlength (n div 2)" using pos by (simp add: bitlength.simps[of "n div 2"])
    have "2 ^ (bitlength n - 1) = 2 * 2 ^ (bitlength (n div 2) - 1)"
      using bl blpos by (cases "bitlength (n div 2)") simp_all
    also have "\<dots> \<le> 2 * (n div 2)" using lo by simp
    also have "\<dots> \<le> n" by simp
    finally have A: "2 ^ (bitlength n - 1) \<le> n" .
    have "n < 2 * (n div 2) + 2" by presburger
    also have "\<dots> \<le> 2 * 2 ^ bitlength (n div 2)" using hi by simp
    finally have B: "n < 2 ^ bitlength n" using bl by simp
    from A B show ?thesis by simp
  qed
qed

lemma pow2_powi: "pow2 e = 2 powi e"
  by (simp add: pow2_def power_int_def inverse_eq_divide power_one_over)

lemma pow2_pos [simp]: "0 < pow2 e"
  by (simp add: pow2_powi zero_less_power_int)

lemma pow2_nonzero [simp]: "pow2 e \<noteq> 0"
  by (simp add: pow2_def)

lemma pow2_add: "pow2 (a + b) = pow2 a * pow2 b"
  by (simp add: pow2_powi power_int_add)

lemma pow2_mono: "a \<le> b \<Longrightarrow> pow2 a \<le> pow2 b"
  by (simp add: pow2_powi power_int_increasing)

lemma pow2_strict_mono: "a < b \<Longrightarrow> pow2 a < pow2 b"
  by (simp add: pow2_powi power_int_strict_increasing)

lemma pow2_less_cancel: "pow2 a < pow2 b \<Longrightarrow> a < b"
  using pow2_mono[of b a] by (cases "a < b") auto

lemma pow2_nat: "pow2 (int n) = 2 ^ n"
  by (simp add: pow2_def)

lemma pow2_diff: "pow2 (a - b) = pow2 a / pow2 b"
proof -
  have "pow2 a = pow2 ((a - b) + b)" by simp
  also have "\<dots> = pow2 (a - b) * pow2 b" by (rule pow2_add)
  finally show ?thesis by simp
qed

lemma expo_bounds:
  assumes "x \<noteq> 0"
  shows "pow2 (expo x) \<le> \<bar>x\<bar> \<and> \<bar>x\<bar> < pow2 (expo x + 1)"
proof -
  obtain p q where pq: "quotient_of \<bar>x\<bar> = (p, q)" by (cases "quotient_of \<bar>x\<bar>")
  have q: "0 < q" using pq quotient_of_denom_pos by blast
  have xeq: "\<bar>x\<bar> = of_int p / of_int q" using pq by (simp add: quotient_of_div)
  have "0 < \<bar>x\<bar>" using assms by simp
  then have p: "0 < p" using xeq q by (simp add: zero_less_divide_iff)
  define a where "a = bitlength (nat p)"
  define b where "b = bitlength (nat q)"
  have pa: "2 ^ (a - 1) \<le> nat p" "nat p < 2 ^ a"
    using bitlength_bounds[of "nat p"] p by (simp_all add: a_def)
  have qb: "2 ^ (b - 1) \<le> nat q" "nat q < 2 ^ b"
    using bitlength_bounds[of "nat q"] q by (simp_all add: b_def)
  have apos: "0 < a" using p by (simp add: a_def bitlength.simps[of "nat p"])
  have bpos: "0 < b" using q by (simp add: b_def bitlength.simps[of "nat q"])
  have P: "(of_int p :: rat) = of_nat (nat p)" using p by simp
  have Q: "(of_int q :: rat) = of_nat (nat q)" using q by simp
  have pl: "(2::rat) ^ (a - 1) \<le> of_int p" unfolding P using pa(1)
    by (metis of_nat_le_iff of_nat_numeral of_nat_power)
  have pu: "of_int p < (2::rat) ^ a" unfolding P using pa(2)
    by (metis of_nat_less_iff of_nat_numeral of_nat_power)
  have ql: "(2::rat) ^ (b - 1) \<le> of_int q" unfolding Q using qb(1)
    by (metis of_nat_le_iff of_nat_numeral of_nat_power)
  have qu: "of_int q < (2::rat) ^ b" unfolding Q using qb(2)
    by (metis of_nat_less_iff of_nat_numeral of_nat_power)
  have qpos: "(0::rat) < of_int q" using q by simp
  define d where "d = int a - int b"
  have lower: "pow2 (d - 1) \<le> \<bar>x\<bar>"
  proof -
    have "d - 1 = int (a - 1) - int b" using apos by (simp add: d_def of_nat_diff)
    then have "pow2 (d - 1) = pow2 (int (a - 1) - int b)" by simp
    also have "\<dots> = 2 ^ (a - 1) / 2 ^ b" by (simp add: pow2_diff pow2_nat)
    also have "\<dots> \<le> of_int p / 2 ^ b" using pl by (simp add: divide_right_mono)
    also have "\<dots> \<le> of_int p / of_int q" using qu qpos p
      by (simp add: frac_le)
    finally show ?thesis by (simp add: xeq)
  qed
  have upper: "\<bar>x\<bar> < pow2 (d + 1)"
  proof -
    have "\<bar>x\<bar> = of_int p / of_int q" by (rule xeq)
    also have "\<dots> < 2 ^ a / of_int q" using pu qpos by (simp add: divide_strict_right_mono)
    also have "\<dots> \<le> 2 ^ a / 2 ^ (b - 1)" using ql by (simp add: frac_le)
    also have "\<dots> = pow2 (int a - int (b - 1))" by (simp add: pow2_diff pow2_nat)
    also have "\<dots> = pow2 (d + 1)"
    proof -
      have "int a - int (b - 1) = d + 1" using bpos by (simp add: d_def of_nat_diff)
      then show ?thesis by simp
    qed
    finally show ?thesis .
  qed
  have ex: "expo x = (if pow2 d \<le> \<bar>x\<bar> then d else d - 1)"
    by (simp add: expo_def pq a_def b_def d_def Let_def)
  show ?thesis
  proof (cases "pow2 d \<le> \<bar>x\<bar>")
    case True
    then show ?thesis using ex upper by simp
  next
    case False
    then show ?thesis using ex lower by simp
  qed
qed

lemma expo_unique:
  assumes "x \<noteq> 0" "pow2 k \<le> \<bar>x\<bar>" "\<bar>x\<bar> < pow2 (k + 1)"
  shows "expo x = k"
proof -
  from expo_bounds[OF assms(1)] have lo: "pow2 (expo x) \<le> \<bar>x\<bar>" and hi: "\<bar>x\<bar> < pow2 (expo x + 1)"
    by simp_all
  have "pow2 k < pow2 (expo x + 1)" using assms(2) hi by simp
  then have a: "k < expo x + 1" by (rule pow2_less_cancel)
  have "pow2 (expo x) < pow2 (k + 1)" using lo assms(3) by simp
  then have b: "expo x < k + 1" by (rule pow2_less_cancel)
  from a b show ?thesis by simp
qed

lemma round_half_even_of_int [simp]: "round_half_even (of_int k) = k"
  by (simp add: round_half_even_def)


lemma round_binary64_exponent:
  assumes "x \<noteq> 0" "pow2 k \<le> \<bar>x\<bar>" "\<bar>x\<bar> < pow2 (k + 1)"
  shows "round_binary64 x =
     (let e = max (k - 52) (- 1074);
          y = of_int (round_half_even (x / pow2 e)) * pow2 e
      in if 2 ^ 1024 \<le> \<bar>y\<bar> then (if 0 < x then PosInf else NegInf) else Fin y)"
  using assms
  by (simp add: round_binary64_def round_finite_def quantum_exponent_def expo_unique[OF assms] Let_def)

lemma round_binary64_of_int:
  assumes "\<bar>k\<bar> < 2 ^ 53"
  shows "round_binary64 (of_int k) = Fin (of_int k)"
proof (cases "k = 0")
  case True
  then show ?thesis by (simp add: round_binary64_def)
next
  case False
  define x :: rat where "x = of_int k"
  have x0: "x \<noteq> 0" using False by (simp add: x_def)
  have absx: "\<bar>x\<bar> = of_int \<bar>k\<bar>" by (simp add: x_def)
  have ge1: "pow2 0 \<le> \<bar>x\<bar>" using False by (simp add: absx pow2_def)
  have lt: "\<bar>x\<bar> < pow2 53"
  proof -
    have "(of_int \<bar>k\<bar> :: rat) < of_int (2 ^ 53)" using assms by (simp only: of_int_less_iff)
    then show ?thesis by (simp add: absx pow2_def)
  qed
  from expo_bounds[OF x0] have lo: "pow2 (expo x) \<le> \<bar>x\<bar>" and hi: "\<bar>x\<bar> < pow2 (expo x + 1)"
    by simp_all
  have "pow2 0 < pow2 (expo x + 1)" using ge1 hi by simp
  then have e0: "0 \<le> expo x" using pow2_less_cancel[of 0 "expo x + 1"] by simp
  have "pow2 (expo x) < pow2 53" using lo lt by simp
  then have e52: "expo x \<le> 52" using pow2_less_cancel[of "expo x" 53] by simp
  define n where "n = nat (52 - expo x)"
  have e: "max (expo x - 52) (- 1074) = - int n" using e0 e52 by (simp add: n_def)
  have pn: "pow2 (- int n) = 1 / 2 ^ n" by (simp add: pow2_def)
  have scaled: "x / pow2 (- int n) = of_int (k * 2 ^ n)" by (simp add: pn x_def)
  have y: "of_int (round_half_even (x / pow2 (- int n))) * pow2 (- int n) = x"
    unfolding scaled round_half_even_of_int by (simp add: pn x_def)
  have small: "\<not> 2 ^ 1024 \<le> \<bar>x\<bar>"
  proof -
    have "\<bar>x\<bar> < 2 ^ 53" using lt by (simp add: pow2_def)
    also have "(2::rat) ^ 53 \<le> 2 ^ 1024" by (rule power_increasing) simp_all
    finally show ?thesis by simp
  qed
  show ?thesis
    using x0 small unfolding round_binary64_def round_finite_def quantum_exponent_def x_def[symmetric]
    by (simp add: e y Let_def)
qed

lemma round_binary64_of_nat:
  "n < 2 ^ 53 \<Longrightarrow> round_binary64 (of_nat n) = Fin (of_nat n)"
  using round_binary64_of_int[of "int n"] by simp


lemma round_half_even_fraction:
  assumes "0 < q"
  shows "round_half_even (of_int p / of_int q) =
     (if 2 * (p mod q) < q then p div q
      else if q < 2 * (p mod q) then p div q + 1
      else if even (p div q) then p div q else p div q + 1)"
proof -
  have fl: "\<lfloor>(of_int p / of_int q :: rat)\<rfloor> = p div q"
    by (simp add: floor_divide_of_int_eq)
  have qr: "(of_int q :: rat) \<noteq> 0" using assms by simp
  have "p = q * (p div q) + p mod q" by simp
  then have "(of_int p :: rat) = of_int (q * (p div q) + p mod q)" by (rule arg_cong)
  also have "\<dots> = of_int q * of_int (p div q) + of_int (p mod q)"
    by (simp only: of_int_add of_int_mult)
  finally have "(of_int p / of_int q :: rat) = of_int (p div q) + of_int (p mod q) / of_int q"
    using qr by (simp add: field_simps)
  then have r: "(of_int p / of_int q :: rat) - of_int (p div q) = of_int (p mod q) / of_int q"
    by simp
  have lt: "(of_int (p mod q) / of_int q < (1 / 2 :: rat)) \<longleftrightarrow> 2 * (p mod q) < q"
  proof -
    have "(of_int (p mod q) / of_int q < (1 / 2 :: rat)) \<longleftrightarrow> (of_int (2 * (p mod q)) :: rat) < of_int q"
      using assms by (simp add: field_simps)
    then show ?thesis by (simp only: of_int_less_iff)
  qed
  have gt: "((1 / 2 :: rat) < of_int (p mod q) / of_int q) \<longleftrightarrow> q < 2 * (p mod q)"
  proof -
    have "((1 / 2 :: rat) < of_int (p mod q) / of_int q) \<longleftrightarrow> (of_int q :: rat) < of_int (2 * (p mod q))"
      using assms by (simp add: field_simps)
    then show ?thesis by (simp only: of_int_less_iff)
  qed
  show ?thesis
    unfolding round_half_even_def Let_def fl r lt gt by simp
qed

lemma round_binary64_fraction:
  assumes "0 < q" "p \<noteq> 0"
    and "pow2 k \<le> \<bar>of_int p / of_int q\<bar>" "\<bar>of_int p / of_int q\<bar> < pow2 (k + 1)"
    and "e = max (k - 52) (- 1074)"
    and "P = (if 0 \<le> e then p else p * 2 ^ nat (- e))"
    and "Q = (if 0 \<le> e then q * 2 ^ nat e else q)"
    and "m = (if 2 * (P mod Q) < Q then P div Q
              else if Q < 2 * (P mod Q) then P div Q + 1
              else if even (P div Q) then P div Q else P div Q + 1)"
    and "\<bar>of_int m * pow2 e\<bar> < 2 ^ 1024"
  shows "round_binary64 (of_int p / of_int q) = Fin (of_int m * pow2 e)"
proof -
  define x :: rat where "x = of_int p / of_int q"
  have x0: "x \<noteq> 0" using assms(1,2) by (simp add: x_def)
  have Qpos: "0 < Q" using assms(1,7) by simp
  have scaled: "x / pow2 e = of_int P / of_int Q"
    using assms(1) by (simp add: assms(6,7) x_def pow2_def)
  have m: "round_half_even (x / pow2 e) = m"
    unfolding scaled round_half_even_fraction[OF Qpos] assms(8) by simp
  show ?thesis
    unfolding x_def[symmetric]
    using assms(3,4,9) x0
    by (simp add: round_binary64_exponent[of x k] x_def[symmetric] assms(5)[symmetric] m Let_def)
qed


lemma num_add_of_nat:
  "n + m < 2 ^ 53 \<Longrightarrow> num_add (Fin (of_nat n)) (Fin (of_nat m)) = Fin (of_nat (n + m))"
  using round_binary64_of_nat[of "n + m"] by simp

lemma num_add_of_int:
  "\<bar>a + b\<bar> < 2 ^ 53 \<Longrightarrow> num_add (Fin (of_int a)) (Fin (of_int b)) = Fin (of_int (a + b))"
  using round_binary64_of_int[of "a + b"] by simp

lemma num_sub_of_int:
  "\<bar>a - b\<bar> < 2 ^ 53 \<Longrightarrow> num_sub (Fin (of_int a)) (Fin (of_int b)) = Fin (of_int (a - b))"
  using round_binary64_of_int[of "a - b"] by (simp add: num_sub_def)

lemma num_mul_of_int:
  "\<bar>a * b\<bar> < 2 ^ 53 \<Longrightarrow> num_mul (Fin (of_int a)) (Fin (of_int b)) = Fin (of_int (a * b))"
  using round_binary64_of_int[of "a * b"] by simp

lemma num_div_of_int:
  assumes "b \<noteq> 0" "b dvd a" "\<bar>a div b\<bar> < 2 ^ 53"
  shows "num_div (Fin (of_int a)) (Fin (of_int b)) = Fin (of_int (a div b))"
proof -
  from assms(2) obtain c where c: "a = b * c" by (rule dvdE)
  have "(of_int a / of_int b :: rat) = of_int (a div b)" using assms(1) by (simp add: c)
  then show ?thesis using assms(1,3) round_binary64_of_int[of "a div b"] by simp
qed

lemma round_half_even_bounds:
  "\<lfloor>y\<rfloor> \<le> round_half_even y \<and> round_half_even y \<le> \<lfloor>y\<rfloor> + 1"
  by (simp add: round_half_even_def Let_def)

lemma round_half_even_mono:
  assumes "x \<le> y"
  shows "round_half_even x \<le> round_half_even y"
proof -
  have fl: "\<lfloor>x\<rfloor> \<le> \<lfloor>y\<rfloor>" using assms by (rule floor_mono)
  show ?thesis
  proof (cases "\<lfloor>x\<rfloor> = \<lfloor>y\<rfloor>")
    case True
    then have "x - of_int \<lfloor>x\<rfloor> \<le> y - of_int \<lfloor>y\<rfloor>" using assms by simp
    then show ?thesis using True by (auto simp add: round_half_even_def Let_def)
  next
    case False
    then have "\<lfloor>x\<rfloor> + 1 \<le> \<lfloor>y\<rfloor>" using fl by simp
    then show ?thesis
      using round_half_even_bounds[of x] round_half_even_bounds[of y] by linarith
  qed
qed

lemma round_half_even_eq:
  "\<lfloor>z\<rfloor> = g \<Longrightarrow> z - of_int g = q \<Longrightarrow>
   round_half_even z = (if q < 1 / 2 then g else if 1 / 2 < q then g + 1
                        else if even g then g else g + 1)"
  by (simp add: round_half_even_def Let_def)

lemma round_half_even_minus: "round_half_even (- y) = - round_half_even y"
proof (cases "y = of_int \<lfloor>y\<rfloor>")
  case True
  then obtain k where "y = of_int k" by metis
  then have "round_half_even y = k" "round_half_even (- y) = - k"
    using round_half_even_of_int[of k] round_half_even_of_int[of "- k"] by simp_all
  then show ?thesis by simp
next
  case False
  define f where "f = \<lfloor>y\<rfloor>"
  define r where "r = y - of_int f"
  have r0: "0 < r" using False unfolding r_def f_def
    by (metis diff_gt_0_iff_gt floor_less_cancel less_floor_iff of_int_floor_le order_le_less) 
  have r1: "r < 1" unfolding r_def f_def by linarith
  have fm: "\<lfloor>- y\<rfloor> = - f - 1"
  proof -
    have "of_int (- f - 1) \<le> - y" using r1 by (simp add: r_def)
    moreover have "- y < of_int (- f - 1) + 1" using r0 by (simp add: r_def)
    ultimately show ?thesis by (simp add: floor_unique)
  qed
  have rm: "- y - of_int (- f - 1) = 1 - r" by (simp add: r_def)
  have pos: "round_half_even y =
      (if r < 1 / 2 then f else if 1 / 2 < r then f + 1 else if even f then f else f + 1)"
    by (rule round_half_even_eq) (simp_all add: f_def r_def)
  have neg: "round_half_even (- y) =
      (if 1 - r < 1 / 2 then - f - 1 else if 1 / 2 < 1 - r then - f - 1 + 1
       else if even (- f - 1) then - f - 1 else - f - 1 + 1)"
    using fm rm by (rule round_half_even_eq)
  consider "r < 1 / 2" | "1 / 2 < r" | "r = 1 / 2" by linarith
  then show ?thesis
  proof cases
    case 1
    then have "\<not> 1 - r < 1 / 2" "1 / 2 < 1 - r" by simp_all
    then show ?thesis using 1 by (simp add: pos neg)
  next
    case 2
    then have "1 - r < 1 / 2" "\<not> r < 1 / 2" by simp_all
    then show ?thesis using 2 by (simp add: pos neg)
  next
    case 3
    then show ?thesis by (simp add: pos neg)
  qed
qed


lemma pow2_nonneg [simp]: "0 \<le> pow2 e"
  by (simp add: pow2_def)

lemma round_half_even_zero [simp]: "round_half_even 0 = 0"
  using round_half_even_of_int[of 0] by simp

lemma expo_minus [simp]: "expo (- x) = expo x"
  by (simp add: expo_def)

lemma round_finite_minus: "round_finite (- x) = - round_finite x"
  by (simp add: round_finite_def quantum_exponent_def round_half_even_minus)

lemma round_finite_zero [simp]: "round_finite 0 = 0"
  by (simp add: round_finite_def)

lemma expo_mono:
  assumes "0 < x" "x \<le> y"
  shows "expo x \<le> expo y"
proof -
  have x0: "x \<noteq> 0" and y0: "y \<noteq> 0" using assms by simp_all
  have "pow2 (expo x) \<le> \<bar>x\<bar>" using expo_bounds[OF x0] by simp
  also have "\<bar>x\<bar> \<le> \<bar>y\<bar>" using assms by simp
  also have "\<bar>y\<bar> < pow2 (expo y + 1)" using expo_bounds[OF y0] by simp
  finally have "expo x < expo y + 1" by (rule pow2_less_cancel)
  then show ?thesis by simp
qed

lemma round_finite_nonneg:
  assumes "0 \<le> x"
  shows "0 \<le> round_finite x"
proof -
  have "0 \<le> x / pow2 (quantum_exponent x)" using assms by simp
  then have "0 \<le> \<lfloor>x / pow2 (quantum_exponent x)\<rfloor>" by simp
  then have "0 \<le> round_half_even (x / pow2 (quantum_exponent x))"
    using round_half_even_bounds[of "x / pow2 (quantum_exponent x)"] by linarith
  then show ?thesis by (simp add: round_finite_def)
qed

lemma round_finite_upper:
  assumes "0 < x"
  shows "round_finite x \<le> pow2 (expo x + 1)"
proof -
  define e where "e = quantum_exponent x"
  have x0: "x \<noteq> 0" using assms by simp
  have lt: "x < pow2 (expo x + 1)" using expo_bounds[OF x0] assms by simp
  show ?thesis
  proof (cases "e \<le> expo x + 1")
    case True
    define n where "n = nat (expo x + 1 - e)"
    have split: "pow2 (expo x + 1) = of_int (2 ^ n) * pow2 e"
    proof -
      have "expo x + 1 = int n + e" using True by (simp add: n_def)
      then have "pow2 (expo x + 1) = pow2 (int n) * pow2 e" by (simp add: pow2_add)
      then show ?thesis by (simp add: pow2_nat)
    qed
    have "x / pow2 e \<le> of_int (2 ^ n)" using lt split by (simp add: field_simps)
    then have "round_half_even (x / pow2 e) \<le> round_half_even (of_int (2 ^ n))"
      by (rule round_half_even_mono)
    then have "round_half_even (x / pow2 e) \<le> 2 ^ n" by (simp only: round_half_even_of_int)
    then have "(of_int (round_half_even (x / pow2 e)) :: rat) \<le> of_int (2 ^ n)"
      by (simp only: of_int_le_iff)
    then have "of_int (round_half_even (x / pow2 e)) * pow2 e \<le> of_int (2 ^ n) * pow2 e"
      by (rule mult_right_mono) simp
    then show ?thesis by (simp add: round_finite_def e_def[symmetric] split)
  next
    case False
    then have "expo x + 1 \<le> e - 1" by simp
    then have "pow2 (expo x + 1) \<le> pow2 (e - 1)" by (rule pow2_mono)
    also have "pow2 (e - 1) = pow2 e / 2"
    proof -
      have "pow2 1 = 2" by (simp add: pow2_def)
      then show ?thesis using pow2_diff[of e 1] by simp
    qed
    finally have "x < pow2 e / 2" using lt by simp
    then have half: "x / pow2 e < 1 / 2" by (simp add: field_simps)
    have nonneg: "0 \<le> x / pow2 e" using assms by simp
    have "x / pow2 e < 1" using half by linarith
    then have fl: "\<lfloor>x / pow2 e\<rfloor> = 0" using nonneg by (intro floor_unique) simp_all
    have "round_half_even (x / pow2 e) = 0"
      using half by (simp add: round_half_even_def fl Let_def)
    then show ?thesis by (simp add: round_finite_def e_def[symmetric])
  qed
qed

lemma round_finite_lower:
  assumes "0 < x" "quantum_exponent x = expo x - 52"
  shows "pow2 (expo x) \<le> round_finite x"
proof -
  define e where "e = quantum_exponent x"
  have x0: "x \<noteq> 0" using assms by simp
  have ge: "pow2 (expo x) \<le> x" using expo_bounds[OF x0] assms by simp
  have split: "pow2 (expo x) = of_int (2 ^ 52) * pow2 e"
  proof -
    have "expo x = int 52 + e" using assms(2) by (simp add: e_def)
    then have "pow2 (expo x) = pow2 (int 52) * pow2 e" by (simp only: pow2_add)
    then show ?thesis by (simp only: pow2_nat) simp
  qed
  have "of_int (2 ^ 52) \<le> x / pow2 e" using ge split by (simp add: field_simps)
  then have "round_half_even (of_int (2 ^ 52)) \<le> round_half_even (x / pow2 e)"
    by (rule round_half_even_mono)
  then have "2 ^ 52 \<le> round_half_even (x / pow2 e)" by (simp only: round_half_even_of_int)
  then have "(of_int (2 ^ 52) :: rat) \<le> of_int (round_half_even (x / pow2 e))"
    by (simp only: of_int_le_iff)
  then have "of_int (2 ^ 52) * pow2 e \<le> of_int (round_half_even (x / pow2 e)) * pow2 e"
    by (rule mult_right_mono) simp
  then show ?thesis by (simp add: round_finite_def e_def[symmetric] split)
qed

lemma round_finite_mono_pos:
  assumes "0 < x" "x \<le> y"
  shows "round_finite x \<le> round_finite y"
proof -
  have ypos: "0 < y" using assms by simp
  have ex: "expo x \<le> expo y" using assms by (rule expo_mono)
  then have qe: "quantum_exponent x \<le> quantum_exponent y" by (simp add: quantum_exponent_def)
  show ?thesis
  proof (cases "quantum_exponent x = quantum_exponent y")
    case True
    have "x / pow2 (quantum_exponent y) \<le> y / pow2 (quantum_exponent y)"
      using assms(2) by (simp add: divide_right_mono)
    then have "round_half_even (x / pow2 (quantum_exponent y)) \<le>
        round_half_even (y / pow2 (quantum_exponent y))"
      by (rule round_half_even_mono)
    then have "(of_int (round_half_even (x / pow2 (quantum_exponent y))) :: rat) \<le>
        of_int (round_half_even (y / pow2 (quantum_exponent y)))"
      by (simp only: of_int_le_iff)
    then have "of_int (round_half_even (x / pow2 (quantum_exponent y))) * pow2 (quantum_exponent y) \<le>
        of_int (round_half_even (y / pow2 (quantum_exponent y))) * pow2 (quantum_exponent y)"
      by (rule mult_right_mono) simp
    then show ?thesis by (simp add: round_finite_def True)
  next
    case False
    then have less: "quantum_exponent x < quantum_exponent y" using qe by simp
    then have normal: "quantum_exponent y = expo y - 52"
      by (simp add: quantum_exponent_def max_def split: if_splits)
    have "expo x - 52 \<le> quantum_exponent x" by (simp add: quantum_exponent_def)
    then have "expo x + 1 \<le> expo y" using less normal by simp
    then have "pow2 (expo x + 1) \<le> pow2 (expo y)" by (rule pow2_mono)
    then show ?thesis
      using round_finite_upper[OF assms(1)] round_finite_lower[OF ypos normal] by linarith
  qed
qed

lemma round_finite_mono:
  assumes "x \<le> y"
  shows "round_finite x \<le> round_finite y"
proof -
  consider "0 < x" | "x \<le> 0" "0 \<le> y" | "y < 0" by linarith
  then show ?thesis
  proof cases
    case 1
    then show ?thesis using assms by (rule round_finite_mono_pos)
  next
    case 2
    have "round_finite x = - round_finite (- x)" using round_finite_minus[of x] by simp
    moreover have "0 \<le> round_finite (- x)" using 2(1) by (intro round_finite_nonneg) simp
    moreover have "0 \<le> round_finite y" using 2(2) by (rule round_finite_nonneg)
    ultimately show ?thesis by simp
  next
    case 3
    then have "0 < - y" "- y \<le> - x" using assms by simp_all
    then have "round_finite (- y) \<le> round_finite (- x)" by (rule round_finite_mono_pos)
    then show ?thesis by (simp add: round_finite_minus)
  qed
qed

lemma round_finite_sign:
  "0 < x \<Longrightarrow> 0 \<le> round_finite x" "x < 0 \<Longrightarrow> round_finite x \<le> 0"
proof -
  show "0 < x \<Longrightarrow> 0 \<le> round_finite x" by (simp add: round_finite_nonneg)
  assume "x < 0"
  then have "0 \<le> round_finite (- x)" by (intro round_finite_nonneg) simp
  then show "round_finite x \<le> 0" by (simp add: round_finite_minus)
qed

lemma round_binary64_mono:
  assumes "x \<le> y"
  shows "num_le (round_binary64 x) (round_binary64 y)"
proof -
  have m: "round_finite x \<le> round_finite y" using assms by (rule round_finite_mono)
  have big: "(0::rat) < 2 ^ 1024" by simp
  consider "x = 0" | "y = 0" "x \<noteq> 0" | "x \<noteq> 0" "y \<noteq> 0" by blast
  then show ?thesis
  proof cases
    case 1
    then have "0 \<le> y" using assms by simp
    then show ?thesis
      using 1 round_finite_nonneg[of y] by (simp add: round_binary64_def)
  next
    case 2
    then have "x < 0" using assms by simp
    then show ?thesis
      using 2 round_finite_sign(2)[of x] by (simp add: round_binary64_def)
  next
    case 3
    consider "0 < x" | "x < 0" "0 < y" | "y < 0" using 3 by linarith
    then show ?thesis
    proof cases
      case 1
      then have "0 < y" using assms by simp
      then show ?thesis
        using 1 m round_finite_sign(1)[of x] round_finite_sign(1)[of y]
        by (simp add: round_binary64_def)
    next
      case 2
      then show ?thesis
        using m round_finite_sign(2)[of x] round_finite_sign(1)[of y]
        by (simp add: round_binary64_def)
    next
      case 3
      then have "x < 0" using assms by simp
      then show ?thesis
        using 3 m round_finite_sign(2)[of x] round_finite_sign(2)[of y]
        by (simp add: round_binary64_def)
    qed
  qed
qed


lemma round_binary64_not_NaN [simp]: "round_binary64 x \<noteq> NaN"
  by (simp add: round_binary64_def)

lemma num_add_not_NaN: "b \<noteq> NaN \<Longrightarrow> num_add (Fin l) b \<noteq> NaN"
  by (cases b) simp_all

lemma num_le_NegInf: "b \<noteq> NaN \<Longrightarrow> num_le NegInf b"
  by (cases b) simp_all

lemma num_le_PosInf: "a \<noteq> NaN \<Longrightarrow> num_le a PosInf"
  by (cases a) simp_all

lemma num_add_mono:
  assumes "num_le b b'"
  shows "num_le (num_add (Fin l) b) (num_add (Fin l) b')"
proof (cases b)
  case (Fin x)
  show ?thesis
  proof (cases b')
    case (Fin y)
    then have "l + x \<le> l + y" using assms \<open>b = Fin x\<close> by simp
    then show ?thesis using Fin \<open>b = Fin x\<close> by (simp add: round_binary64_mono)
  next
    case PosInf
    then show ?thesis using \<open>b = Fin x\<close> by (simp add: num_le_PosInf)
  next
    case NegInf
    then show ?thesis using assms \<open>b = Fin x\<close> by simp
  next
    case NaN
    then show ?thesis using assms \<open>b = Fin x\<close> by simp
  qed
next
  case PosInf
  then show ?thesis using assms by (cases b') simp_all
next
  case NegInf
  then have "b' \<noteq> NaN" using assms by (cases b') simp_all
  then have "num_add (Fin l) b' \<noteq> NaN" by (rule num_add_not_NaN)
  then show ?thesis using NegInf by (simp add: num_le_NegInf)
next
  case NaN
  then show ?thesis using assms by simp
qed

section \<open>Grid levels and settings updates\<close>

lemma ToLength_of_nat: "n < 2 ^ 53 \<Longrightarrow> ToLength (Fin (of_nat n)) = n"
  by (cases "n = 0") simp_all

lemma Array_from_length_of_nat:
  assumes "n \<le> 2 ^ 32 - 1"
  shows "Array_from_length (Fin (of_nat n)) f = Inr (map (\<lambda>i. f (Fin (of_nat i))) [0..<n])"
proof -
  have "n < 2 ^ 53" using assms by simp
  then have "ToLength (Fin (of_nat n)) = n" by (rule ToLength_of_nat)
  then show ?thesis using assms by (simp add: Array_from_length_def)
qed

lemma calculateGridLines_map:
  assumes "gridNumber (settings st) = Fin (of_nat n)" "n \<le> 2 ^ 32 - 2"
  shows "calculateGridLines st =
    Inr (map (\<lambda>i. num_add (lowerLimit (settings st))
                     (num_mul (calculateGridInterval st) (Fin (of_nat i)))) [0..<n + 1])"
proof -
  have "n + 1 < 2 ^ 53" using assms(2) by simp
  then have "num_add (Fin (of_nat n)) (Fin (of_nat 1)) = Fin (of_nat (n + 1))"
    by (rule num_add_of_nat)
  then have len: "num_add (Fin (of_nat n)) (Fin 1) = Fin (of_nat (n + 1))" by simp
  have "n + 1 \<le> 2 ^ 32 - 1" using assms(2) by simp
  then show ?thesis
    unfolding calculateGridLines_def calculateGridInterval_def Let_def assms(1) len
    by (rule Array_from_length_of_nat)
qed

lemma exact_grid:
  assumes g: "gridNumber (settings st) = Fin (of_nat n)" and n1: "1 \<le> n" and n32: "n \<le> 2 ^ 32 - 2"
    and lo: "lowerLimit (settings st) = Fin (of_int a)"
    and up: "upperLimit (settings st) = Fin (of_int b)"
    and ab: "a < b" and a53: "\<bar>a\<bar> < 2 ^ 53" and b53: "\<bar>b\<bar> < 2 ^ 53"
    and ba: "b - a < 2 ^ 53"
    and dv: "int n dvd b - a"
  shows "calculateGridInterval st = Fin (of_int ((b - a) div int n))"
    and "0 < (b - a) div int n"
    and "(b - a) div int n * int n = b - a"
    and "calculateGridLines st =
      Inr (map (\<lambda>i. Fin (of_int (a + int i * ((b - a) div int n)))) [0..<n + 1])"
proof -
  define d where "d = (b - a) div int n"
  have npos: "0 < int n" using n1 by simp
  have dn: "d * int n = b - a" using dv by (simp add: d_def)
  have dpos: "0 < d"
  proof (rule ccontr)
    assume "\<not> 0 < d"
    then have "d * int n \<le> 0" using npos by (simp add: mult_le_0_iff)
    then show False using dn ab by simp
  qed
  have dle: "d \<le> b - a"
  proof -
    have "d * 1 \<le> d * int n" using dpos n1 by (intro mult_left_mono) simp_all
    then show ?thesis using dn by simp
  qed
  have diff: "\<bar>b - a\<bar> < 2 ^ 53" using ab ba by simp
  have sub: "num_sub (Fin (of_int b)) (Fin (of_int a)) = Fin (of_int (b - a))"
    using diff by (rule num_sub_of_int)
  have "num_div (Fin (of_int (b - a))) (Fin (of_int (int n))) = Fin (of_int ((b - a) div int n))"
    using npos dv dle dpos diff by (intro num_div_of_int) (simp_all add: d_def)
  then show iv: "calculateGridInterval st = Fin (of_int ((b - a) div int n))"
    by (simp add: calculateGridInterval_def lo up g sub)
  show "0 < (b - a) div int n" using dpos by (simp add: d_def)
  show "(b - a) div int n * int n = b - a" using dn by (simp add: d_def)
  have level: "num_add (Fin (of_int a)) (num_mul (Fin (of_int d)) (Fin (of_nat i))) =
      Fin (of_int (a + int i * d))" if "i \<le> n" for i
  proof -
    have i0: "0 \<le> d * int i" using dpos by simp
    have "d * int i \<le> d * int n" using dpos that by (intro mult_left_mono) simp_all
    then have ib: "d * int i \<le> b - a" using dn by simp
    have "\<bar>d * int i\<bar> < 2 ^ 53" using i0 ib diff by simp
    then have "num_mul (Fin (of_int d)) (Fin (of_int (int i))) = Fin (of_int (d * int i))"
      by (rule num_mul_of_int)
    then have m: "num_mul (Fin (of_int d)) (Fin (of_nat i)) = Fin (of_int (d * int i))" by simp
    have "a \<le> a + d * int i" "a + d * int i \<le> b" using i0 ib by simp_all
    then have "\<bar>a + d * int i\<bar> < 2 ^ 53" using a53 b53 by simp
    then have "num_add (Fin (of_int a)) (Fin (of_int (d * int i))) = Fin (of_int (a + d * int i))"
      by (rule num_add_of_int)
    then show ?thesis unfolding m by (simp only: mult.commute[of d "int i"])
  qed
  show "calculateGridLines st =
      Inr (map (\<lambda>i. Fin (of_int (a + int i * ((b - a) div int n)))) [0..<n + 1])"
    unfolding calculateGridLines_map[OF g n32] iv lo
    using level by (simp add: d_def)
qed

lemma interval_nonneg:
  assumes "lowerLimit (settings st) = Fin l" "upperLimit (settings st) = Fin u" "l < u"
    and "gridNumber (settings st) = Fin (of_nat n)" "1 \<le> n"
    and "calculateGridInterval st = Fin d"
  shows "0 \<le> d"
proof -
  have sub: "num_sub (Fin u) (Fin l) = round_binary64 (u - l)" by (simp add: num_sub_def)
  show ?thesis
  proof (cases "round_binary64 (u - l)")
    case (Fin s)
    have "num_le (round_binary64 0) (round_binary64 (u - l))"
      using assms(3) by (intro round_binary64_mono) simp
    then have s0: "0 \<le> s" using Fin by (simp add: round_binary64_def)
    have n0: "(of_nat n :: rat) \<noteq> 0" using assms(5) by simp
    have "calculateGridInterval st = round_binary64 (s / of_nat n)"
      using n0 by (simp add: calculateGridInterval_def assms(1,2,4) sub Fin)
    then have eq: "round_binary64 (s / of_nat n) = Fin d" using assms(6) by simp
    have "num_le (round_binary64 0) (round_binary64 (s / of_nat n))"
      using s0 by (intro round_binary64_mono) simp
    then show ?thesis using eq by (simp add: round_binary64_def)
  next
    case PosInf
    then have "calculateGridInterval st = PosInf"
      by (simp add: calculateGridInterval_def assms(1,2,4) sub)
    then show ?thesis using assms(6) by simp
  next
    case NegInf
    have "num_le (round_binary64 0) (round_binary64 (u - l))"
      using assms(3) by (intro round_binary64_mono) simp
    then show ?thesis using NegInf by (simp add: round_binary64_def)
  next
    case NaN
    then show ?thesis by simp
  qed
qed

lemma levels_nondecreasing:
  assumes "0 \<le> d" "i \<le> j"
  shows "num_le (num_add (Fin l) (num_mul (Fin d) (Fin (of_nat i))))
                (num_add (Fin l) (num_mul (Fin d) (Fin (of_nat j))))"
proof -
  have "(of_nat i :: rat) \<le> of_nat j" using assms(2) by simp
  then have "d * of_nat i \<le> d * of_nat j" using assms(1) by (rule mult_left_mono)
  then have "num_le (num_mul (Fin d) (Fin (of_nat i))) (num_mul (Fin d) (Fin (of_nat j)))"
    by (simp add: round_binary64_mono)
  then show ?thesis by (rule num_add_mono)
qed

lemma sorted_wrt_map_upt:
  assumes "\<And>i j. i < j \<Longrightarrow> j < n \<Longrightarrow> P (f i) (f j)"
  shows "sorted_wrt P (map f [0..<n])"
  using assms by (simp add: sorted_wrt_iff_nth_less)

text \<open>
  C1, as the code has it. For a grid number \<open>n\<close> between 1 and \<open>2 ^ 32 - 2\<close>,
  \<open>calculateGridLines\<close> returns exactly \<open>n + 1\<close> values, the \<open>i\<close>-th being
  \<open>lowerLimit + interval * i\<close> in binary64 arithmetic, with \<open>interval\<close> computed once; the
  first is \<open>lowerLimit\<close> whenever the interval is finite, and for finite limits with
  \<open>lowerLimit < upperLimit\<close> and a finite interval the values never decrease. When the two
  limits are integers below \<open>2 ^ 53\<close> in magnitude whose difference is a multiple of \<open>n\<close>
  below \<open>2 ^ 53\<close>, no operation rounds: the values are \<open>lowerLimit + i * interval\<close>
  exactly, strictly increasing, evenly spaced, and the last is \<open>upperLimit\<close>.
\<close>

theorem calculateGridLines_levels:
  assumes g: "gridNumber (settings st) = Fin (of_nat n)" and n1: "1 \<le> n" and n32: "n \<le> 2 ^ 32 - 2"
  shows "\<exists>levels. calculateGridLines st = Inr levels \<and> length levels = n + 1 \<and>
    (\<forall>i. i \<le> n \<longrightarrow> levels ! i =
       num_add (lowerLimit (settings st)) (num_mul (calculateGridInterval st) (Fin (of_nat i)))) \<and>
    (\<forall>d. calculateGridInterval st = Fin d \<and> is_double (lowerLimit (settings st)) \<longrightarrow>
       levels ! 0 = lowerLimit (settings st)) \<and>
    (\<forall>l u d. lowerLimit (settings st) = Fin l \<and> upperLimit (settings st) = Fin u \<and> l < u \<and>
       calculateGridInterval st = Fin d \<longrightarrow> sorted_wrt num_le levels) \<and>
    (\<forall>a b. lowerLimit (settings st) = Fin (of_int a) \<and> upperLimit (settings st) = Fin (of_int b) \<and>
       a < b \<and> \<bar>a\<bar> < 2 ^ 53 \<and> \<bar>b\<bar> < 2 ^ 53 \<and> b - a < 2 ^ 53 \<and> int n dvd b - a \<longrightarrow>
       levels = map (\<lambda>i. Fin (of_int (a + int i * ((b - a) div int n)))) [0..<n + 1] \<and>
       levels ! 0 = lowerLimit (settings st) \<and>
       levels ! n = upperLimit (settings st) \<and>
       last levels = upperLimit (settings st) \<and>
       sorted_wrt num_less levels \<and>
       (\<forall>i. i < n \<longrightarrow> num_sub (levels ! Suc i) (levels ! i) = calculateGridInterval st))"
proof -
  define levels where "levels = map (\<lambda>i. num_add (lowerLimit (settings st))
      (num_mul (calculateGridInterval st) (Fin (of_nat i)))) [0..<n + 1]"
  have res: "calculateGridLines st = Inr levels"
    unfolding levels_def by (rule calculateGridLines_map[OF g n32])
  have len: "length levels = n + 1" by (simp add: levels_def)
  have nth: "levels ! i =
      num_add (lowerLimit (settings st)) (num_mul (calculateGridInterval st) (Fin (of_nat i)))"
    if "i \<le> n" for i
  proof -
    have "i < length [0..<n + 1]" using that by simp
    then have "levels ! i = num_add (lowerLimit (settings st))
        (num_mul (calculateGridInterval st) (Fin (of_nat ([0..<n + 1] ! i))))"
      unfolding levels_def by (rule nth_map)
    moreover have "[0..<n + 1] ! i = i" using that by (simp del: upt_Suc)
    ultimately show ?thesis by simp
  qed
  have first: "levels ! 0 = lowerLimit (settings st)"
    if "calculateGridInterval st = Fin d" "is_double (lowerLimit (settings st))" for d
  proof -
    have "levels ! 0 = num_add (lowerLimit (settings st)) (num_mul (Fin d) (Fin 0))"
      using nth[of 0] that(1) by simp
    also have "num_mul (Fin d) (Fin 0) = Fin 0" by (simp add: round_binary64_def)
    also have "num_add (lowerLimit (settings st)) (Fin 0) = lowerLimit (settings st)"
      using that(2) by (cases "lowerLimit (settings st)") simp_all
    finally show ?thesis .
  qed
  have mono: "sorted_wrt num_le levels"
    if lo: "lowerLimit (settings st) = Fin l" and up: "upperLimit (settings st) = Fin u"
      and lu: "l < u" and iv: "calculateGridInterval st = Fin d" for l u d
  proof -
    have d0: "0 \<le> d" using lo up lu g n1 iv by (rule interval_nonneg)
    show ?thesis
      unfolding levels_def lo iv
    proof (rule sorted_wrt_map_upt)
      fix i j :: nat
      assume "i < j" "j < n + 1"
      then have "i \<le> j" by simp
      with d0 show "num_le (num_add (Fin l) (num_mul (Fin d) (Fin (of_nat i))))
          (num_add (Fin l) (num_mul (Fin d) (Fin (of_nat j))))"
        by (rule levels_nondecreasing)
    qed
  qed
  have exact: "levels = map (\<lambda>i. Fin (of_int (a + int i * ((b - a) div int n)))) [0..<n + 1] \<and>
       levels ! 0 = lowerLimit (settings st) \<and>
       levels ! n = upperLimit (settings st) \<and>
       last levels = upperLimit (settings st) \<and>
       sorted_wrt num_less levels \<and>
       (\<forall>i. i < n \<longrightarrow> num_sub (levels ! Suc i) (levels ! i) = calculateGridInterval st)"
    if lo: "lowerLimit (settings st) = Fin (of_int a)" and up: "upperLimit (settings st) = Fin (of_int b)"
      and ab: "a < b" and a53: "\<bar>a\<bar> < 2 ^ 53" and b53: "\<bar>b\<bar> < 2 ^ 53" and ba: "b - a < 2 ^ 53"
      and dv: "int n dvd b - a" for a b
  proof -
    define d where "d = (b - a) div int n"
    note ex = exact_grid[OF g n1 n32 lo up ab a53 b53 ba dv]
    have iv: "calculateGridInterval st = Fin (of_int d)" using ex(1) by (simp add: d_def)
    have dpos: "0 < d" using ex(2) by (simp add: d_def)
    have dn: "d * int n = b - a" using ex(3) by (simp add: d_def)
    have eq: "levels = map (\<lambda>i. Fin (of_int (a + int i * d))) [0..<n + 1]"
      using ex(4) res by (simp add: d_def)
    have at: "levels ! i = Fin (of_int (a + int i * d))" if "i \<le> n" for i
    proof -
      have "i < length [0..<n + 1]" using that by simp
      then have "levels ! i = Fin (of_int (a + int ([0..<n + 1] ! i) * d))"
        unfolding eq by (rule nth_map)
      moreover have "[0..<n + 1] ! i = i" using that by (simp del: upt_Suc)
      ultimately show ?thesis by simp
    qed
    have l0: "levels ! 0 = lowerLimit (settings st)" using at[of 0] by (simp add: lo)
    have ln: "levels ! n = upperLimit (settings st)"
    proof -
      have "a + int n * d = b" using dn by (simp add: mult.commute)
      then show ?thesis using at[of n] by (simp add: up)
    qed
    have "levels \<noteq> []" using len by auto
    then have "last levels = levels ! (length levels - 1)" by (rule last_conv_nth)
    then have ll: "last levels = upperLimit (settings st)" using ln len by simp
    have so: "sorted_wrt num_less levels"
      unfolding eq
    proof (rule sorted_wrt_map_upt)
      fix i j :: nat
      assume "i < j" "j < n + 1"
      then have "a + int i * d < a + int j * d" using dpos by simp
      then have "(of_int (a + int i * d) :: rat) < of_int (a + int j * d)"
        by (simp only: of_int_less_iff)
      then show "num_less (Fin (of_int (a + int i * d))) (Fin (of_int (a + int j * d)))"
        by (simp only: num_less.simps)
    qed
    have sp: "num_sub (levels ! Suc i) (levels ! i) = calculateGridInterval st" if "i < n" for i
    proof -
      have "(a + int (Suc i) * d) - (a + int i * d) = d" by (simp add: algebra_simps)
      moreover have "\<bar>d\<bar> < 2 ^ 53"
      proof -
        have "d * 1 \<le> d * int n" using dpos n1 by (intro mult_left_mono) simp_all
        then show ?thesis using dn dpos ba by simp
      qed
      ultimately have "num_sub (Fin (of_int (a + int (Suc i) * d))) (Fin (of_int (a + int i * d)))
          = Fin (of_int d)"
        using num_sub_of_int[of "a + int (Suc i) * d" "a + int i * d"] by simp
      then show ?thesis using at[of i] at[of "Suc i"] that iv by simp
    qed
    from eq l0 ln ll so sp show ?thesis by (simp add: d_def)
  qed
  from res len nth first mono exact show ?thesis by blast
qed

theorem calculateGridLines_levels_witness:
  "gridNumber (settings \<lparr>settings = defaultSettings, isDirty = False\<rparr>) = Fin (of_nat 10) \<and>
   (1::nat) \<le> 10 \<and> (10::nat) \<le> 2 ^ 32 - 2 \<and>
   calculateGridLines \<lparr>settings = defaultSettings, isDirty = False\<rparr> =
     Inr [Fin 25000, Fin 25500, Fin 26000, Fin 26500, Fin 27000, Fin 27500, Fin 28000,
          Fin 28500, Fin 29000, Fin 29500, Fin 30000]"
proof -
  let ?st = "\<lparr>settings = defaultSettings, isDirty = False\<rparr>"
  have g: "gridNumber (settings ?st) = Fin (of_nat 10)" by (simp add: defaultSettings_def)
  have n1: "(1::nat) \<le> 10" and n32: "(10::nat) \<le> 2 ^ 32 - 2" by simp_all
  from calculateGridLines_levels[OF g n1 n32] obtain levels where
    res: "calculateGridLines ?st = Inr levels" and
    exact: "\<And>a b. lowerLimit (settings ?st) = Fin (of_int a) \<and> upperLimit (settings ?st) = Fin (of_int b) \<and>
       a < b \<and> \<bar>a\<bar> < 2 ^ 53 \<and> \<bar>b\<bar> < 2 ^ 53 \<and> b - a < 2 ^ 53 \<and> int 10 dvd b - a \<Longrightarrow>
       levels = map (\<lambda>i. Fin (of_int (a + int i * ((b - a) div int 10)))) [0..<10 + 1]"
    by blast
  have "levels = map (\<lambda>i. Fin (of_int (25000 + int i * ((30000 - 25000) div int 10)))) [0..<10 + 1]"
    by (rule exact) (simp add: defaultSettings_def)
  then have "levels = [Fin 25000, Fin 25500, Fin 26000, Fin 26500, Fin 27000, Fin 27500, Fin 28000,
          Fin 28500, Fin 29000, Fin 29500, Fin 30000]"
    by (simp add: upt_rec)
  with res g show ?thesis by simp
qed

lemma grid_100_11:
  "valid_configuration
     \<lparr>upperLimit = Fin 100, lowerLimit = Fin 0, gridNumber = Fin 11,
      initialInvestment = Fin 1000, stopLoss = Fin 0, takeProfitLevel = Fin 101\<rparr> \<and>
   (\<exists>levels.
      calculateGridLines
        \<lparr>settings = \<lparr>upperLimit = Fin 100, lowerLimit = Fin 0, gridNumber = Fin 11,
           initialInvestment = Fin 1000, stopLoss = Fin 0, takeProfitLevel = Fin 101\<rparr>,
         isDirty = False\<rparr> = Inr levels \<and>
      length levels = 12 \<and>
      last levels = Fin (7036874417766401 / 70368744177664) \<and>
      last levels \<noteq> Fin 100)"
proof -
  let ?cfg = "\<lparr>upperLimit = Fin 100, lowerLimit = Fin 0, gridNumber = Fin 11,
      initialInvestment = Fin 1000, stopLoss = Fin 0, takeProfitLevel = Fin 101\<rparr>"
  let ?st = "\<lparr>settings = ?cfg, isDirty = False\<rparr>"
  have valid: "valid_configuration ?cfg" by (simp add: valid_configuration_def)
  have g: "gridNumber (settings ?st) = Fin (of_nat 11)" by simp
  have n32: "(11::nat) \<le> 2 ^ 32 - 2" by simp
  have sub: "num_sub (Fin 100) (Fin 0) = Fin 100"
    using num_sub_of_int[of 100 0] by simp
  have quot: "round_binary64 (100 / 11) = Fin (5117726849284655 / 562949953421312)"
    using round_binary64_fraction[of 11 100 3 "-49" "100 * 2 ^ 49" 11 5117726849284655]
    by (simp add: pow2_def)
  have iv: "calculateGridInterval ?st = Fin (5117726849284655 / 562949953421312)"
    by (simp add: calculateGridInterval_def sub quot)
  have prod: "round_binary64 (56294995342131205 / 562949953421312) =
      Fin (7036874417766401 / 70368744177664)"
    using round_binary64_fraction[of 562949953421312 56294995342131205 6 "-46"
        "56294995342131205 * 2 ^ 46" 562949953421312 7036874417766401]
    by (simp add: pow2_def)
  have mul: "num_mul (Fin (5117726849284655 / 562949953421312)) (Fin 11) =
      Fin (7036874417766401 / 70368744177664)"
    using prod by simp
  have same: "round_binary64 (7036874417766401 / 70368744177664) =
      Fin (7036874417766401 / 70368744177664)"
    using round_binary64_fraction[of 70368744177664 7036874417766401 6 "-46"
        "7036874417766401 * 2 ^ 46" 70368744177664 7036874417766401]
    by (simp add: pow2_def)
  have add: "num_add (Fin 0) (Fin (7036874417766401 / 70368744177664)) =
      Fin (7036874417766401 / 70368744177664)"
    using same by simp
  define levels where "levels = map (\<lambda>i. num_add (lowerLimit (settings ?st))
      (num_mul (calculateGridInterval ?st) (Fin (of_nat i)))) [0..<11 + 1]"
  have res: "calculateGridLines ?st = Inr levels"
    unfolding levels_def by (rule calculateGridLines_map[OF g n32])
  have len: "length levels = 12" by (simp add: levels_def)
  have "last levels = num_add (Fin 0) (num_mul (Fin (5117726849284655 / 562949953421312)) (Fin 11))"
    unfolding levels_def iv by (simp add: last_map del: num_add.simps num_mul.simps)
  then have last: "last levels = Fin (7036874417766401 / 70368744177664)"
    by (simp only: mul add)
  have "last levels \<noteq> Fin 100" unfolding last by simp
  with valid res len last show ?thesis by blast
qed

lemma grid_tie:
  "valid_configuration
     \<lparr>upperLimit = Fin 9007199254740994, lowerLimit = Fin 9007199254740992, gridNumber = Fin 2,
      initialInvestment = Fin 1000, stopLoss = Fin 0, takeProfitLevel = Fin 9007199254740996\<rparr> \<and>
   calculateGridLines
     \<lparr>settings = \<lparr>upperLimit = Fin 9007199254740994, lowerLimit = Fin 9007199254740992,
        gridNumber = Fin 2, initialInvestment = Fin 1000, stopLoss = Fin 0,
        takeProfitLevel = Fin 9007199254740996\<rparr>,
      isDirty = False\<rparr> =
     Inr [Fin 9007199254740992, Fin 9007199254740992, Fin 9007199254740994]"
proof -
  let ?cfg = "\<lparr>upperLimit = Fin 9007199254740994, lowerLimit = Fin 9007199254740992, gridNumber = Fin 2,
      initialInvestment = Fin 1000, stopLoss = Fin 0, takeProfitLevel = Fin 9007199254740996\<rparr>"
  let ?st = "\<lparr>settings = ?cfg, isDirty = False\<rparr>"
  have valid: "valid_configuration ?cfg" by (simp add: valid_configuration_def)
  have g: "gridNumber (settings ?st) = Fin (of_nat 2)" by simp
  have n32: "(2::nat) \<le> 2 ^ 32 - 2" by simp
  have r0: "round_binary64 9007199254740992 = Fin 9007199254740992"
    using round_binary64_fraction[of 1 9007199254740992 53 1 9007199254740992 2 4503599627370496]
    by (simp add: pow2_def)
  have r1: "round_binary64 9007199254740993 = Fin 9007199254740992"
    using round_binary64_fraction[of 1 9007199254740993 53 1 9007199254740993 2 4503599627370496]
    by (simp add: pow2_def)
  have r2: "round_binary64 9007199254740994 = Fin 9007199254740994"
    using round_binary64_fraction[of 1 9007199254740994 53 1 9007199254740994 2 4503599627370497]
    by (simp add: pow2_def)
  have small: "round_binary64 1 = Fin 1" "round_binary64 2 = Fin 2"
    using round_binary64_of_int[of 1] round_binary64_of_int[of 2] by simp_all
  have iv: "calculateGridInterval ?st = Fin 1"
    by (simp add: calculateGridInterval_def num_sub_def small)
  have "calculateGridLines ?st = Inr (map (\<lambda>i. num_add (lowerLimit (settings ?st))
      (num_mul (calculateGridInterval ?st) (Fin (of_nat i)))) [0..<2 + 1])"
    by (rule calculateGridLines_map[OF g n32])
  then have "calculateGridLines ?st =
      Inr [Fin 9007199254740992, Fin 9007199254740992, Fin 9007199254740994]"
    unfolding iv by (simp add: upt_rec small r0 r1 r2 round_binary64_def[of 0])
  with valid show ?thesis by simp
qed

text \<open>
  C1 as stated fails. With \<open>{upper: 100, lower: 0, gridNumber: 11}\<close> the interval is
  \<open>100 / 11\<close> rounded to binary64, and eleven times it rounds to
  \<open>100.00000000000001\<close>, so the last level is not \<open>upperLimit\<close>. With
  \<open>{upper: 2 ^ 53 + 2, lower: 2 ^ 53, gridNumber: 2}\<close> the interval is 1 and the middle
  level \<open>2 ^ 53 + 1\<close> rounds back to \<open>2 ^ 53\<close>, so the levels are neither strictly
  increasing nor evenly spaced.
\<close>

theorem calculateGridLines_endpoint_counterexample:
  "valid_configuration
     \<lparr>upperLimit = Fin 100, lowerLimit = Fin 0, gridNumber = Fin 11,
      initialInvestment = Fin 1000, stopLoss = Fin 0, takeProfitLevel = Fin 101\<rparr> \<and>
   (\<exists>levels.
      calculateGridLines
        \<lparr>settings = \<lparr>upperLimit = Fin 100, lowerLimit = Fin 0, gridNumber = Fin 11,
           initialInvestment = Fin 1000, stopLoss = Fin 0, takeProfitLevel = Fin 101\<rparr>,
         isDirty = False\<rparr> = Inr levels \<and>
      length levels = 12 \<and>
      last levels = Fin (7036874417766401 / 70368744177664) \<and>
      last levels \<noteq> Fin 100) \<and>
   valid_configuration
     \<lparr>upperLimit = Fin 9007199254740994, lowerLimit = Fin 9007199254740992, gridNumber = Fin 2,
      initialInvestment = Fin 1000, stopLoss = Fin 0, takeProfitLevel = Fin 9007199254740996\<rparr> \<and>
   calculateGridLines
     \<lparr>settings = \<lparr>upperLimit = Fin 9007199254740994, lowerLimit = Fin 9007199254740992,
        gridNumber = Fin 2, initialInvestment = Fin 1000, stopLoss = Fin 0,
        takeProfitLevel = Fin 9007199254740996\<rparr>,
      isDirty = False\<rparr> =
     Inr [Fin 9007199254740992, Fin 9007199254740992, Fin 9007199254740994]"
  using grid_100_11 grid_tie by blast




section \<open>Signing\<close>

lemma toString16_small: "n < 16 \<Longrightarrow> toString16 n = [digit_char n]"
  by (simp add: toString16.simps)

lemma toString16_two: "16 \<le> n \<Longrightarrow> n < 256 \<Longrightarrow>
    toString16 n = [digit_char (n div 16), digit_char (n mod 16)]"
proof -
  assume a: "16 \<le> n" "n < 256"
  then have "n div 16 < 16" by simp
  then show ?thesis using a by (simp add: toString16.simps[of n] toString16_small)
qed

lemma byte_hex: "padStart 2 (CHR ''0'') (toString16 (unat (b :: uint8))) =
    [digit_char (unat b div 16), digit_char (unat b mod 16)]"
proof -
  have lt: "unat b < 256" using unsigned_less[of b] by simp
  show ?thesis
  proof (cases "unat b < 16")
    case True
    then show ?thesis by (simp add: toString16_small padStart_def digit_char_def)
  next
    case False
    then show ?thesis using lt by (simp add: toString16_two padStart_def)
  qed
qed

lemma browser_hex: "concat (map (\<lambda>b. padStart 2 (CHR ''0'') (toString16 (unat b))) bs) = digest_hex bs"
  by (simp add: digest_hex_def byte_hex)

lemma TextEncoder_encode_empty [simp]: "TextEncoder_encode s = [] \<longleftrightarrow> s = []"
  by (simp add: TextEncoder_encode_def)

lemma generateSignature_eq:
  "generateSignature hmac this queryString =
     (if apiSecret this = [] then Inl (new_Error MSG_SIGN_FAILED)
      else Inr (generateSignature_server hmac queryString (apiSecret this)))"
  by (simp add: generateSignature_def subtle_importKey_def generateSignature_server_def
      browser_hex Let_def)


text \<open>
  C5 as stated fails at the empty secret: the browser refuses to import a key of length
  zero, so the client throws, while the server's function signs with the empty key.
\<close>

theorem generateSignature_empty_secret_counterexample:
  "\<forall>hmac.
     generateSignature hmac \<lparr>apiKey = ''key'', apiSecret = [], baseUrl = TEST_API_BASE_URL\<rparr>
       ''timestamp=1700000000000'' = Inl (new_Error MSG_SIGN_FAILED) \<and>
     generateSignature hmac \<lparr>apiKey = ''key'', apiSecret = [], baseUrl = TEST_API_BASE_URL\<rparr>
       ''timestamp=1700000000000'' \<noteq>
     Inr (generateSignature_server hmac ''timestamp=1700000000000'' [])"
  by (simp add: generateSignature_eq)

text \<open>
  C5, as the code has it. For every non-empty secret and every query string the two
  implementations return the same string: the code of the secret's and the query string's
  bytes, each byte of it written as two lower-case hexadecimal digits.
\<close>

theorem generateSignature_agree:
  assumes "apiSecret this \<noteq> []"
  shows "generateSignature hmac this queryString =
      Inr (generateSignature_server hmac queryString (apiSecret this)) \<and>
    generateSignature_server hmac queryString (apiSecret this) =
      concat (map (\<lambda>b. [digit_char (unat b div 16), digit_char (unat b mod 16)])
        (hmac (TextEncoder_encode (apiSecret this)) (TextEncoder_encode queryString))) \<and>
    length (generateSignature_server hmac queryString (apiSecret this)) =
      2 * length (hmac (TextEncoder_encode (apiSecret this)) (TextEncoder_encode queryString)) \<and>
    set (generateSignature_server hmac queryString (apiSecret this)) \<subseteq> set ''0123456789abcdef''"
proof -
  let ?mac = "hmac (TextEncoder_encode (apiSecret this)) (TextEncoder_encode queryString)"
  have a: "generateSignature hmac this queryString =
      Inr (generateSignature_server hmac queryString (apiSecret this))"
    using assms by (simp add: generateSignature_eq)
  have b: "generateSignature_server hmac queryString (apiSecret this) =
      concat (map (\<lambda>b. [digit_char (unat b div 16), digit_char (unat b mod 16)]) ?mac)"
    by (simp add: generateSignature_server_def digest_hex_def)
  have c: "length (digest_hex bs) = 2 * length bs" for bs
    by (induction bs) (simp_all add: digest_hex_def)
  define A where "A = set ''0123456789abcdef''"
  have digit: "digit_char d \<in> A" if "d < 16" for d
  proof -
    have "d < length ''0123456789abcdef''" using that by simp
    then show ?thesis unfolding digit_char_def A_def by (rule nth_mem)
  qed
  have d: "set (digest_hex bs) \<subseteq> A" for bs
  proof (induction bs)
    case Nil
    show ?case by (simp add: digest_hex_def)
  next
    case (Cons b bs)
    have "unat b < 256" using unsigned_less[of b] by simp
    then have "unat b div 16 < 16" "unat b mod 16 < 16" by simp_all
    then have "digit_char (unat b div 16) \<in> A" "digit_char (unat b mod 16) \<in> A"
      by (simp_all only: digit)
    moreover have "digest_hex (b # bs) =
        digit_char (unat b div 16) # digit_char (unat b mod 16) # digest_hex bs"
      by (simp add: digest_hex_def)
    ultimately show ?case using Cons.IH by simp
  qed
  from a b c[of ?mac] d[of ?mac] show ?thesis
    unfolding A_def by (simp only: generateSignature_server_def)
qed

theorem generateSignature_agree_witness:
  "apiSecret \<lparr>apiKey = ''key'', apiSecret = ''s3cret'', baseUrl = TEST_API_BASE_URL\<rparr> \<noteq> [] \<and>
   generateSignature (\<lambda>key message. [0x00, 0x0F, 0xA5, 0xFF])
     \<lparr>apiKey = ''key'', apiSecret = ''s3cret'', baseUrl = TEST_API_BASE_URL\<rparr> ''timestamp=1'' =
     Inr ''000fa5ff'' \<and>
   generateSignature_server (\<lambda>key message. [0x00, 0x0F, 0xA5, 0xFF]) ''timestamp=1'' ''s3cret'' =
     ''000fa5ff''"
proof -
  let ?c = "\<lparr>apiKey = ''key'', apiSecret = ''s3cret'', baseUrl = TEST_API_BASE_URL\<rparr>"
  let ?hmac = "\<lambda>key message. [0x00, 0x0F, 0xA5, 0xFF] :: uint8 list"
  have ne: "apiSecret ?c \<noteq> []" by simp
  have hex: "generateSignature_server ?hmac ''timestamp=1'' ''s3cret'' = ''000fa5ff''"
    by (simp add: generateSignature_server_def digest_hex_def digit_char_def)
  from generateSignature_agree[OF ne, of ?hmac "''timestamp=1''"]
  have "generateSignature ?hmac ?c ''timestamp=1'' =
      Inr (generateSignature_server ?hmac ''timestamp=1'' ''s3cret'')"
    by simp
  with ne hex show ?thesis by simp
qed

lemma digit_char_inj:
  assumes "a < 16" "b < 16" "digit_char a = digit_char b"
  shows "a = b"
proof -
  have d: "distinct ''0123456789abcdef''" by simp
  have "a < length ''0123456789abcdef''" "b < length ''0123456789abcdef''"
    using assms(1,2) by simp_all
  then show ?thesis
    using assms(3) d unfolding digit_char_def by (simp only: nth_eq_iff_index_eq)
qed

lemma byte_digits_inj:
  fixes b c :: uint8
  assumes "digit_char (unat b div 16) = digit_char (unat c div 16)"
    and "digit_char (unat b mod 16) = digit_char (unat c mod 16)"
  shows "b = c"
proof -
  have lb: "unat b < 256" and lc: "unat c < 256"
    using unsigned_less[of b] unsigned_less[of c] by simp_all
  have "unat b div 16 = unat c div 16"
    using lb lc assms(1) by (intro digit_char_inj) simp_all
  moreover have "unat b mod 16 = unat c mod 16"
    using assms(2) by (intro digit_char_inj) simp_all
  ultimately have "unat b = unat c" by (metis div_mult_mod_eq)
  then show ?thesis by (simp only: word_unat_eq_iff)
qed

lemma digest_hex_inj: "digest_hex bs = digest_hex cs \<Longrightarrow> bs = cs"
proof (induction bs arbitrary: cs)
  case Nil
  then show ?case by (cases cs) (simp_all add: digest_hex_def)
next
  case (Cons b bs)
  show ?case
  proof (cases cs)
    case Nil
    then show ?thesis using Cons.prems by (simp add: digest_hex_def)
  next
    case (Cons c cs')
    have "digest_hex (b # bs) = digit_char (unat b div 16) # digit_char (unat b mod 16) # digest_hex bs"
      "digest_hex (c # cs') = digit_char (unat c div 16) # digit_char (unat c mod 16) # digest_hex cs'"
      by (simp_all add: digest_hex_def)
    then have hd: "digit_char (unat b div 16) = digit_char (unat c div 16)"
      "digit_char (unat b mod 16) = digit_char (unat c mod 16)"
      and tl: "digest_hex bs = digest_hex cs'"
      using Cons.prems Cons by simp_all
    from hd have "b = c" by (rule byte_digits_inj)
    moreover from tl have "bs = cs'" by (rule Cons.IH)
    ultimately show ?thesis using Cons by simp
  qed
qed

text \<open>
  The hexadecimal digest loses nothing: two signatures are equal exactly when the two
  codes are. Whether changing a byte of the secret or of the message changes the
  signature is therefore a question about HMAC-SHA256 alone.
\<close>

lemma signatures_equal_iff:
  "generateSignature_server hmac q s = generateSignature_server hmac q' s' \<longleftrightarrow>
   hmac (TextEncoder_encode s) (TextEncoder_encode q) =
   hmac (TextEncoder_encode s') (TextEncoder_encode q')"
  by (auto simp add: generateSignature_server_def dest: digest_hex_inj)

section \<open>Requests and time-outs\<close>

lemma validateCredentials_cases:
  "validateCredentials hmac now net this =
     (case generateSignature hmac this (''timestamp='' @ toString10 now) of
        Inl error \<Rightarrow> Some (Inr False)
      | Inr signature \<Rightarrow>
          (case net (validateCredentials_request this (''timestamp='' @ toString10 now) signature) of
             Silent \<Rightarrow> None
           | Breaks t m \<Rightarrow> Some (Inr False)
           | Answers t r \<Rightarrow>
               (case resp_body r of
                  Stalls \<Rightarrow> None
                | Body s j \<Rightarrow> Some (Inr (ok r \<and> j \<noteq> None)))))"
  by (simp add: validateCredentials_def fetch_def validateCredentials_request_def
      response_text_def response_json_def Let_def
      split: sum.split network.split body.split option.split)

lemma str_includes_needs_head:
  "c \<notin> set s \<Longrightarrow> \<not> str_includes s (c # cs)"
  by (induction s) auto

lemma F_not_in_bytes:
  "list_all (\<lambda>n. n mod 256 \<noteq> 70) ns \<Longrightarrow> CHR ''F'' \<notin> set (map char_of (ns :: nat list))"
proof (induction ns)
  case Nil
  show ?case by simp
next
  case (Cons n ns)
  have "char_of n \<noteq> CHR ''F''"
  proof
    assume "char_of n = CHR ''F''"
    then have "of_char (char_of n) = (of_char (CHR ''F'') :: nat)" by simp
    then show False using Cons.prems by (simp add: of_char_of)
  qed
  then show ?case using Cons by auto
qed

lemma F_not_in_MSG_TIMEOUT: "CHR ''F'' \<notin> set MSG_TIMEOUT"
  unfolding MSG_TIMEOUT_def by (rule F_not_in_bytes) simp

lemma F_not_in_MSG_NETWORK_CORS: "CHR ''F'' \<notin> set MSG_NETWORK_CORS"
  unfolding MSG_NETWORK_CORS_def by (rule F_not_in_bytes) simp

lemma F_not_in_MSG_SIGN_FAILED: "CHR ''F'' \<notin> set MSG_SIGN_FAILED"
  unfolding MSG_SIGN_FAILED_def by (rule F_not_in_bytes) simp

lemma MSG_TIMEOUT_neq_MSG_NETWORK_CORS: "MSG_TIMEOUT \<noteq> MSG_NETWORK_CORS"
proof
  assume "MSG_TIMEOUT = MSG_NETWORK_CORS"
  then have "length MSG_TIMEOUT = length MSG_NETWORK_CORS" by simp
  then show False by (simp add: MSG_TIMEOUT_def MSG_NETWORK_CORS_def)
qed

lemma handleError_plain:
  "\<not> str_includes m ''Failed to fetch'' \<Longrightarrow> handleError (new_Error m) d = new_Error m"
  by (simp add: handleError_def new_Error_def)


lemma handleError_TypeError:
  "\<not> str_includes m ''Failed to fetch'' \<Longrightarrow> handleError (TypeError m) d = TypeError m"
  by (simp add: handleError_def TypeError_def)

lemma timeout_passes: "handleError (makeRequest_rethrow AbortError) d = new_Error MSG_TIMEOUT"
  by (simp add: makeRequest_rethrow_def AbortError_def handleError_plain
      str_includes_needs_head[OF F_not_in_MSG_TIMEOUT])

lemma sign_failure_passes: "handleError (new_Error MSG_SIGN_FAILED) d = new_Error MSG_SIGN_FAILED"
  by (simp add: handleError_plain str_includes_needs_head[OF F_not_in_MSG_SIGN_FAILED])

lemma broken_connection:
  "handleError (makeRequest_rethrow (TypeError m)) d =
     (if str_includes m ''Failed to fetch'' then new_Error MSG_NETWORK_CORS else TypeError m)"
  by (simp add: makeRequest_rethrow_def handleError_plain handleError_TypeError
      str_includes_needs_head[OF F_not_in_MSG_NETWORK_CORS])
    (simp add: TypeError_def)

lemma makeRequest_cases:
  "makeRequest hmac now net this endpoint params =
     (let queryString = URLSearchParams_toString (set_property ''timestamp'' (toString10 now) params)
      in if apiSecret this = [] then Some (Inl (new_Error MSG_SIGN_FAILED))
         else
           (case net (makeRequest_request this endpoint queryString
                       (generateSignature_server hmac queryString (apiSecret this))) of
              Silent \<Rightarrow> Some (Inl (new_Error MSG_TIMEOUT))
            | Breaks t m \<Rightarrow>
                if t < 10000 then
                  Some (Inl (if str_includes m ''Failed to fetch'' then new_Error MSG_NETWORK_CORS
                             else TypeError m))
                else Some (Inl (new_Error MSG_TIMEOUT))
            | Answers t r \<Rightarrow>
                if t < 10000 then
                  (case resp_body r of
                     Stalls \<Rightarrow> None
                   | Body s j \<Rightarrow>
                       if \<not> ok r then
                         Some (Inl (handleError
                           (new_Error (MSG_REQUEST_FAILED @ toString10 (resp_status r) @ ''): '' @ s))
                           MSG_REQUEST_DEFAULT))
                       else
                         (case j of
                            None \<Rightarrow> Some (Inl (SyntaxError ''Unexpected token''))
                          | Some data \<Rightarrow> Some (Inr data)))
                else Some (Inl (new_Error MSG_TIMEOUT))))"
proof -
  have syn: "handleError (makeRequest_rethrow (SyntaxError ''Unexpected token'')) d =
      SyntaxError ''Unexpected token''" for d
    by (simp add: makeRequest_rethrow_def handleError_def SyntaxError_def)
  have plain: "makeRequest_rethrow (new_Error m) = new_Error m" for m
    by (simp add: makeRequest_rethrow_def new_Error_def)
  show ?thesis
    by (simp add: makeRequest_def generateSignature_eq fetch_def makeRequest_request_def
        response_text_def response_json_def Let_def timeout_passes sign_failure_passes
        broken_connection syn plain
        split: network.split body.split option.split)
qed


lemma axios_bounded:
  "req_timeout req = Some T \<Longrightarrow> axios net req \<noteq> None"
  by (simp add: axios_def split: network.split body.split)

lemma api_price_answers: "api_price net symbol \<noteq> None"
proof -
  have "axios net (price_request symbol) \<noteq> None"
    by (rule axios_bounded[of _ 5000]) (simp add: price_request_def)
  then show ?thesis by (auto simp add: api_price_def split: option.split sum.split)
qed

lemma api_balance_answers: "api_balance hmac now net query \<noteq> None"
proof (cases "query ''apiKey''")
  case None
  then show ?thesis by (simp add: api_balance_def)
next
  case key: (Some k)
  show ?thesis
  proof (cases "query ''apiSecret''")
    case None
    with key show ?thesis by (simp add: api_balance_def)
  next
    case secret: (Some s)
    have "axios net (balance_request hmac now k s) \<noteq> None"
      by (rule axios_bounded[of _ 10000]) (simp add: balance_request_def Let_def)
    then obtain y where "axios net (balance_request hmac now k s) = Some y" by blast
    then show ?thesis using key secret by (cases y) (simp_all add: api_balance_def)
  qed
qed

text \<open>
  C6 as stated fails: \<open>validateCredentials\<close> and the \<open>makeRequest\<close> of the proxy-side
  client arm no timer, so on a silent network they never return; and the price query of
  the browser-side client goes through \<open>makeRequest\<close>, whose bound is 10 seconds, not 5.
\<close>

theorem unbounded_calls_counterexample:
  "(\<forall>hmac now.
      validateCredentials hmac now (\<lambda>req. Silent)
        \<lparr>apiKey = ''key'', apiSecret = ''s3cret'', baseUrl = TEST_API_BASE_URL\<rparr> = None) \<and>
   makeRequest_part002 (\<lambda>req. Silent)
     \<lparr>apiKey = ''key'', apiSecret = ''s3cret'', baseUrl = TEST_API_BASE_URL\<rparr>
     ''/balance'' ''GET'' None = None \<and>
   (\<forall>hmac now. \<exists>req.
      getCurrentPrice_request hmac now
        \<lparr>apiKey = ''key'', apiSecret = ''s3cret'', baseUrl = TEST_API_BASE_URL\<rparr> ''BTCUSDT'' = Inr req \<and>
      req_timeout req = Some 10000)"
  by (simp add: validateCredentials_cases generateSignature_eq makeRequest_part002_def fetch_def
      makeRequest_part002_request_def getCurrentPrice_request_def makeRequest_request_def Let_def)

text \<open>
  C6, as the code has it. The \<open>makeRequest\<close> of the browser-side client bounds the wait
  for the response head by 10 seconds for every endpoint: when nothing has arrived by then
  it fails with an \<open>Error\<close> carrying the time-out message. A connection that fails earlier
  gives a different error (the network message when the platform's text contains
  \<open>Failed to fetch\<close>, the platform's \<open>TypeError\<close> otherwise), so the two are told apart,
  by message or name only. The proxy server bounds its calls to the exchange by 10 seconds
  (balance) and 5 seconds (price) and always answers; on a time-out it answers 500 with
  the time-out message of axios.
\<close>

theorem makeRequest_timeout:
  assumes "apiSecret this \<noteq> []"
  shows "makeRequest hmac now (\<lambda>req. Silent) this endpoint params = Some (Inl (new_Error MSG_TIMEOUT)) \<and>
    (\<forall>t r. 10000 \<le> t \<longrightarrow>
       makeRequest hmac now (\<lambda>req. Answers t r) this endpoint params = Some (Inl (new_Error MSG_TIMEOUT))) \<and>
    (\<forall>t m. 10000 \<le> t \<longrightarrow>
       makeRequest hmac now (\<lambda>req. Breaks t m) this endpoint params = Some (Inl (new_Error MSG_TIMEOUT))) \<and>
    (\<forall>t. t < 10000 \<longrightarrow>
       makeRequest hmac now (\<lambda>req. Breaks t ''Failed to fetch'') this endpoint params =
         Some (Inl (new_Error MSG_NETWORK_CORS))) \<and>
    (\<forall>t m. t < 10000 \<longrightarrow>
       (\<exists>e. makeRequest hmac now (\<lambda>req. Breaks t m) this endpoint params = Some (Inl e) \<and>
            e \<noteq> new_Error MSG_TIMEOUT)) \<and>
    (\<forall>t r s j. resp_body r = Body s j \<longrightarrow>
       makeRequest hmac now (\<lambda>req. Answers t r) this endpoint params \<noteq> None) \<and>
    req_timeout (balance_request hmac now k s) = Some 10000 \<and>
    req_timeout (price_request symbol) = Some 5000 \<and>
    api_balance hmac now net query \<noteq> None \<and>
    api_price net symbol \<noteq> None \<and>
    api_price (\<lambda>req. Silent) symbol =
      Some \<lparr>reply_status = 500,
            reply_json = JObject [(''error'', JString MSG_PRICE_FAILED),
                                  (''details'', JString ''timeout of 5000ms exceeded'')]\<rparr>"
proof -
  have ten: "toString10 5000 = ''5000''"
    by (simp add: toString10.simps digit_char_def)
  have a: "makeRequest hmac now (\<lambda>req. Silent) this endpoint params = Some (Inl (new_Error MSG_TIMEOUT))"
    using assms by (simp add: makeRequest_cases Let_def)
  have b: "makeRequest hmac now (\<lambda>req. Answers t r) this endpoint params =
      Some (Inl (new_Error MSG_TIMEOUT))" if "10000 \<le> t" for t r
    using assms that by (simp add: makeRequest_cases Let_def)
  have c: "makeRequest hmac now (\<lambda>req. Breaks t m) this endpoint params =
      Some (Inl (new_Error MSG_TIMEOUT))" if "10000 \<le> t" for t m
    using assms that by (simp add: makeRequest_cases Let_def)
  have d: "makeRequest hmac now (\<lambda>req. Breaks t ''Failed to fetch'') this endpoint params =
      Some (Inl (new_Error MSG_NETWORK_CORS))" if "t < 10000" for t
    using assms that by (simp add: makeRequest_cases Let_def)
  have ne1: "new_Error MSG_NETWORK_CORS \<noteq> new_Error MSG_TIMEOUT"
    using MSG_TIMEOUT_neq_MSG_NETWORK_CORS by (simp add: new_Error_def)
  have ne2: "TypeError m \<noteq> new_Error MSG_TIMEOUT" for m
    by (simp add: TypeError_def new_Error_def)
  have e: "\<exists>e. makeRequest hmac now (\<lambda>req. Breaks t m) this endpoint params = Some (Inl e) \<and>
      e \<noteq> new_Error MSG_TIMEOUT" if "t < 10000" for t m
    using assms that ne1 ne2 by (simp add: makeRequest_cases Let_def)
  have f: "makeRequest hmac now (\<lambda>req. Answers t r) this endpoint params \<noteq> None"
    if "resp_body r = Body s j" for t r s j
    using assms that by (simp add: makeRequest_cases Let_def split: option.split)
  have g: "req_timeout (balance_request hmac now k s) = Some 10000"
    by (simp add: balance_request_def Let_def)
  have h: "req_timeout (price_request symbol) = Some 5000"
    by (simp add: price_request_def)
  have i: "api_price (\<lambda>req. Silent) symbol =
      Some \<lparr>reply_status = 500,
            reply_json = JObject [(''error'', JString MSG_PRICE_FAILED),
                                  (''details'', JString ''timeout of 5000ms exceeded'')]\<rparr>"
    by (simp add: api_price_def axios_def price_request_def error_reply_def axios_timeout_error_def ten)
  from a b c d e f g h i api_balance_answers api_price_answers show ?thesis
    by blast
qed

theorem makeRequest_timeout_witness:
  "apiSecret \<lparr>apiKey = ''key'', apiSecret = ''s3cret'', baseUrl = TEST_API_BASE_URL\<rparr> \<noteq> [] \<and>
   (10000::nat) \<le> 12000 \<and> (30::nat) < 10000 \<and>
   makeRequest (\<lambda>key message. []) 1700000000000 (\<lambda>req. Silent)
     \<lparr>apiKey = ''key'', apiSecret = ''s3cret'', baseUrl = TEST_API_BASE_URL\<rparr>
     ''/account'' [] = Some (Inl (new_Error MSG_TIMEOUT)) \<and>
   makeRequest (\<lambda>key message. []) 1700000000000
     (\<lambda>req. Answers 12000 \<lparr>resp_status = 200, resp_body = Body ''{}'' (Some (JObject []))\<rparr>)
     \<lparr>apiKey = ''key'', apiSecret = ''s3cret'', baseUrl = TEST_API_BASE_URL\<rparr>
     ''/account'' [] = Some (Inl (new_Error MSG_TIMEOUT)) \<and>
   makeRequest (\<lambda>key message. []) 1700000000000 (\<lambda>req. Breaks 30 ''Failed to fetch'')
     \<lparr>apiKey = ''key'', apiSecret = ''s3cret'', baseUrl = TEST_API_BASE_URL\<rparr>
     ''/account'' [] = Some (Inl (new_Error MSG_NETWORK_CORS))"
proof -
  let ?c = "\<lparr>apiKey = ''key'', apiSecret = ''s3cret'', baseUrl = TEST_API_BASE_URL\<rparr>"
  have ne: "apiSecret ?c \<noteq> []" by simp
  note t = makeRequest_timeout[OF ne, of "\<lambda>key message. []" 1700000000000 "''/account''" "[]"]
  from t have a: "makeRequest (\<lambda>key message. []) 1700000000000 (\<lambda>req. Silent) ?c ''/account'' [] =
      Some (Inl (new_Error MSG_TIMEOUT))"
    by (rule conjunct1)
  from t have "\<forall>t r. 10000 \<le> t \<longrightarrow>
       makeRequest (\<lambda>key message. []) 1700000000000 (\<lambda>req. Answers t r) ?c ''/account'' [] =
         Some (Inl (new_Error MSG_TIMEOUT))"
    by blast
  then have b: "makeRequest (\<lambda>key message. []) 1700000000000
     (\<lambda>req. Answers 12000 \<lparr>resp_status = 200, resp_body = Body ''{}'' (Some (JObject []))\<rparr>)
     ?c ''/account'' [] = Some (Inl (new_Error MSG_TIMEOUT))"
    by simp
  from t have "\<forall>t. t < 10000 \<longrightarrow>
       makeRequest (\<lambda>key message. []) 1700000000000 (\<lambda>req. Breaks t ''Failed to fetch'') ?c
         ''/account'' [] = Some (Inl (new_Error MSG_NETWORK_CORS))"
    by blast
  then have c: "makeRequest (\<lambda>key message. []) 1700000000000 (\<lambda>req. Breaks 30 ''Failed to fetch'')
     ?c ''/account'' [] = Some (Inl (new_Error MSG_NETWORK_CORS))"
    by simp
  from ne a b c show ?thesis by simp
qed

section \<open>The price query\<close>





lemma untyped_simps [simp]:
  "untyped (new_Error m)" "untyped (TypeError m)" "untyped (SyntaxError m)"
  by (simp_all add: untyped_def new_Error_def TypeError_def SyntaxError_def)









section \<open>Where the secret goes\<close>





section \<open>Halting\<close>


section \<open>Terminal states of the ledger\<close>

lemma run_terminal:
  "ledger orderId = Some s \<Longrightarrow> terminal s \<Longrightarrow> run ledger updates orderId = Some s"
proof (induction updates arbitrary: ledger)
  case Nil
  then show ?case by simp
next
  case (Cons u updates)
  obtain i to where u: "u = (i, to)" by (cases u)
  show ?case
  proof (cases "transition ledger i to")
    case (Inl e)
    then show ?thesis using Cons u by simp
  next
    case (Inr ledger')
    then obtain st where f: "ledger i = Some st" "allowed st to" "ledger' = ledger(i \<mapsto> to)"
      by (auto simp add: transition_def split: option.splits if_splits)
    have "i \<noteq> orderId"
    proof
      assume "i = orderId"
      then have "st = s" using f(1) Cons.prems(1) by simp
      then show False using f(2) Cons.prems(2) by (cases s; cases to) (simp_all add: terminal_def)
    qed
    then have "ledger' orderId = Some s" using f(3) Cons.prems(1) by simp
    then have "run ledger' updates orderId = Some s" using Cons.prems(2) by (rule Cons.IH)
    then show ?thesis using Inr u by simp
  qed
qed

text \<open>
  C9, on the ledger of the specification. Once an order is \<open>FILLED\<close>, \<open>CANCELLED\<close> or
  \<open>REJECTED\<close>, no run of updates changes its status, and every attempt to move a
  \<open>FILLED\<close> order fails with the logic error, leaving the ledger as it was.
\<close>

theorem terminal_states_final:
  "(ledger orderId = Some s \<and> terminal s \<longrightarrow> run ledger updates orderId = Some s) \<and>
   (ledger orderId = Some s \<and> terminal s \<longrightarrow> transition ledger orderId to = Inl LogicError) \<and>
   (ledger orderId = Some FILLED \<longrightarrow>
      transition ledger orderId to = Inl LogicError \<and> run ledger [(orderId, to)] = ledger)"
proof -
  have a: "transition ledger orderId to = Inl LogicError" if "ledger orderId = Some s" "terminal s"
    using that by (cases s; cases to) (simp_all add: transition_def terminal_def)
  have b: "run ledger [(orderId, to)] = ledger" if "ledger orderId = Some FILLED"
    using that by (cases to) (simp_all add: transition_def)
  have c: "transition ledger orderId to = Inl LogicError" if "ledger orderId = Some FILLED"
    using that by (cases to) (simp_all add: transition_def)
  from a b c run_terminal show ?thesis by blast
qed

theorem terminal_states_final_witness:
  "((\<lambda>i. None)(7 \<mapsto> FILLED)) (7::nat) = Some FILLED \<and> terminal FILLED \<and>
   run ((\<lambda>i. None)(7 \<mapsto> FILLED)) [(7, OPEN), (7, CANCELLED), (7, PENDING)] 7 = Some FILLED \<and>
   transition ((\<lambda>i. None)(7 \<mapsto> FILLED)) 7 CANCELLED = Inl LogicError \<and>
   run ((\<lambda>i. None)(7 \<mapsto> FILLED)) [(7, CANCELLED)] = (\<lambda>i. None)(7 \<mapsto> FILLED) \<and>
   run ((\<lambda>i. None)(7 \<mapsto> PENDING)) [(7, OPEN), (7, FILLED)] 7 = Some FILLED"
proof -
  let ?l = "(\<lambda>i. None)(7 \<mapsto> FILLED) :: nat \<Rightarrow> order_status option"
  have h: "?l 7 = Some FILLED" "terminal FILLED" by (simp_all add: terminal_def)
  note w = terminal_states_final[of ?l 7 FILLED "[(7, OPEN), (7, CANCELLED), (7, PENDING)]" CANCELLED]
  from w h have a: "run ?l [(7, OPEN), (7, CANCELLED), (7, PENDING)] 7 = Some FILLED" by blast
  from w h have b: "transition ?l 7 CANCELLED = Inl LogicError" by blast
  from w h have c: "run ?l [(7, CANCELLED)] = ?l" by blast
  have d: "run ((\<lambda>i. None)(7 \<mapsto> PENDING)) [(7, OPEN), (7, FILLED)] (7::nat) = Some FILLED"
    by (simp add: transition_def)
  from h a b c d show ?thesis by simp
qed

section \<open>Credential validation\<close>

end
